theory Spec2Isabelle
  imports Main "HOL-Library.Word"
begin

unbundle bit_operations_syntax

section \<open>Data model of relayport.cc\<close>

type_synonym byte = "8 word"
type_synonym bytes = "byte list"

text \<open>
  Modelled from the spec: \<open>talk_base::IPAddress\<close> and \<open>talk_base::SocketAddress\<close>
  are declared outside the source files. An address is an IP (of some family, or unspecified)
  and a port; the host name plays no part in relayport.cc. \<open>SocketAddress()\<close> is the
  nil address and \<open>operator==\<close> is structural equality.
\<close>

datatype IPAddress = IP_UNSPEC | IPV4 nat | IPV6 nat

record SocketAddress =
  ipaddr :: IPAddress
  port :: nat

definition SocketAddress_nil :: SocketAddress where
  "SocketAddress_nil = \<lparr>ipaddr = IP_UNSPEC, port = 0\<rparr>"

definition IsNil :: "SocketAddress \<Rightarrow> bool" where
  "IsNil a = (ipaddr a = IP_UNSPEC \<and> port a = 0)"

text \<open>
  Modelled from the spec: the enums \<open>ProtocolType\<close> and \<open>ProxyType\<close>, the struct
  \<open>ProtocolAddress\<close> and \<open>ProtoToString\<close> are declared in port.h and proxyinfo.h,
  outside the source files. The transports are UDP, TCP and SSLTCP.
\<close>

datatype ProtocolType = PROTO_UDP | PROTO_TCP | PROTO_SSLTCP

datatype ProxyType = PROXY_NONE | PROXY_HTTPS | PROXY_SOCKS5 | PROXY_UNKNOWN

record ProtocolAddress =
  address :: SocketAddress
  proto :: ProtocolType

definition ProtoToString :: "ProtocolType \<Rightarrow> string" where
  "ProtoToString p = (case p of PROTO_UDP \<Rightarrow> ''udp'' | PROTO_TCP \<Rightarrow> ''tcp''
                      | PROTO_SSLTCP \<Rightarrow> ''ssltcp'')"

text \<open>
  A socket is named by a handle. \<open>RelayConnection\<close> is only constructed in
  \<open>RelayEntry::Connect\<close>, after the test \<open>if (!socket) ... return\<close>, so its
  \<open>socket_\<close> is never null; pointers that may be null (arguments of the socket
  callbacks and of \<open>HandleConnectFailure\<close>) are \<open>nat option\<close>.
\<close>

record RelayConnection =
  socket :: nat
  protocol_address :: ProtocolAddress

definition GetAddress :: "RelayConnection \<Rightarrow> SocketAddress" where
  "GetAddress c = address (protocol_address c)"

definition GetProtocol :: "RelayConnection \<Rightarrow> ProtocolType" where
  "GetProtocol c = proto (protocol_address c)"

record RelayEntry =
  ext_addr :: SocketAddress
  server_index :: nat
  connected :: bool
  locked :: bool
  current_connection :: "RelayConnection option"

type_synonym OptionValue = "nat \<times> int"

record RelayPort =
  server_addr :: "ProtocolAddress list"
  external_addr :: "ProtocolAddress list"
  entries :: "RelayEntry list"
  options :: "OptionValue list"
  ready :: bool
  error :: int
  username_fragment :: bytes
  proxy_type :: ProxyType

subsection \<open>STUN messages\<close>

text \<open>
  Modelled from the spec: the STUN message classes live in stun.h, outside the source
  files. A message is a type and a sequence of typed attributes, and the getters return
  the first attribute of the asked type. The family of an address attribute is that of
  the IP it stores, 1 for IPv4.
\<close>

datatype StunMessageType =
    STUN_ALLOCATE_REQUEST | STUN_ALLOCATE_RESPONSE | STUN_ALLOCATE_ERROR_RESPONSE
  | STUN_SEND_REQUEST | STUN_SEND_RESPONSE | STUN_DATA_INDICATION
  | STUN_OTHER_TYPE nat

datatype StunAttrType =
    STUN_ATTR_MAPPED_ADDRESS | STUN_ATTR_USERNAME | STUN_ATTR_MAGIC_COOKIE
  | STUN_ATTR_DESTINATION_ADDRESS | STUN_ATTR_SOURCE_ADDRESS2 | STUN_ATTR_DATA
  | STUN_ATTR_OPTIONS | STUN_ATTR_ERROR_CODE | STUN_ATTR_OTHER nat

datatype StunAttribute =
    StunByteStringAttribute StunAttrType bytes
  | StunAddressAttribute StunAttrType IPAddress nat
  | StunUInt32Attribute StunAttrType "32 word"

record StunMessage =
  msg_type :: StunMessageType
  attrs :: "StunAttribute list"

fun GetAddress_attr :: "StunAttribute list \<Rightarrow> StunAttrType \<Rightarrow> (IPAddress \<times> nat) option" where
  "GetAddress_attr [] t = None"
| "GetAddress_attr (StunAddressAttribute t' i p # as) t =
     (if t' = t then Some (i, p) else GetAddress_attr as t)"
| "GetAddress_attr (a # as) t = GetAddress_attr as t"

fun GetUInt32_attr :: "StunAttribute list \<Rightarrow> StunAttrType \<Rightarrow> 32 word option" where
  "GetUInt32_attr [] t = None"
| "GetUInt32_attr (StunUInt32Attribute t' v # as) t =
     (if t' = t then Some v else GetUInt32_attr as t)"
| "GetUInt32_attr (a # as) t = GetUInt32_attr as t"

fun GetByteString_attr :: "StunAttribute list \<Rightarrow> StunAttrType \<Rightarrow> bytes option" where
  "GetByteString_attr [] t = None"
| "GetByteString_attr (StunByteStringAttribute t' b # as) t =
     (if t' = t then Some b else GetByteString_attr as t)"
| "GetByteString_attr (a # as) t = GetByteString_attr as t"

definition family :: "IPAddress \<Rightarrow> nat" where
  "family i = (case i of IPV4 _ \<Rightarrow> 1 | IPV6 _ \<Rightarrow> 2 | IP_UNSPEC \<Rightarrow> 0)"

subsection \<open>Collaborators and what the code does to them\<close>

text \<open>
  The sockets, the STUN encoder and decoder, the magic cookie constant and the errno
  \<open>EWOULDBLOCK\<close> are declared outside the source files; they are parameters of the
  model. \<open>sock_send\<close>, \<open>sock_setopt\<close> and \<open>sock_error\<close> are what
  \<open>AsyncPacketSocket::SendTo\<close>, \<open>SetOption\<close> and \<open>GetError\<close> return,
  \<open>stun_write\<close> and \<open>stun_read\<close> are \<open>RelayMessage::Write\<close> and
  \<open>RelayMessage::Read\<close>. The macro \<open>ASSERT\<close> is defined outside the source files
  too: \<open>asserts_enabled\<close> tells whether the build checks it (a failed check aborts)
  or compiles it out.
\<close>

record env =
  sock_send :: "nat \<Rightarrow> bytes \<Rightarrow> SocketAddress \<Rightarrow> int"
  sock_setopt :: "nat \<Rightarrow> nat \<Rightarrow> int \<Rightarrow> int"
  sock_error :: "nat \<Rightarrow> int"
  stun_write :: "StunMessage \<Rightarrow> bytes"
  stun_read :: "bytes \<Rightarrow> StunMessage option"
  TURN_MAGIC_COOKIE_VALUE :: bytes
  EWOULDBLOCK :: int
  asserts_enabled :: bool

text \<open>
  Every call the code makes on a collaborator is recorded, in program order, as an effect.
\<close>

datatype effect =
    SocketSendTo nat bytes SocketAddress
  | SocketSetOption nat nat int
  | SendAllocateRequest RelayConnection int
  | Dispose RelayConnection
  | CreateUdpSocket
  | CreateClientTcpSocket SocketAddress bool
  | Post nat
  | PostDelayed int nat
  | SignalConnectFailure ProtocolAddress
  | SignalSoftTimeout ProtocolAddress
  | set_related_address SocketAddress
  | AddAddress SocketAddress SocketAddress string
  | SignalAddressReady
  | Port_OnReadPacket bytes SocketAddress ProtocolType

definition kMessageConnectTimeout :: nat where "kMessageConnectTimeout = 1"
definition kKeepAliveDelay :: int where "kKeepAliveDelay = 10 * 60 * 1000"
definition kRetryTimeout :: int where "kRetryTimeout = 50 * 1000"
definition kSoftConnectTimeoutMs :: int where "kSoftConnectTimeoutMs = 3 * 1000"

text \<open>
  Modelled from the spec: \<open>SOCKET_ERROR\<close>, the socket-error return of the socket
  layer, is defined in socket.h, outside the source files.
\<close>

definition SOCKET_ERROR :: int where "SOCKET_ERROR = -1"

section \<open>RelayPort: addresses and readiness\<close>

definition AddServerAddress :: "ProtocolAddress \<Rightarrow> RelayPort \<Rightarrow> RelayPort" where
  "AddServerAddress addr p =
     (if proto addr = PROTO_SSLTCP \<and> (proxy_type p = PROXY_HTTPS \<or> proxy_type p = PROXY_UNKNOWN)
      then p\<lparr>server_addr := addr # server_addr p\<rparr>
      else p\<lparr>server_addr := server_addr p @ [addr]\<rparr>)"

definition AddExternalAddress :: "ProtocolAddress \<Rightarrow> RelayPort \<Rightarrow> RelayPort" where
  "AddExternalAddress addr p =
     (if list_ex (\<lambda>it. address it = address addr \<and> proto it = proto addr) (external_addr p)
      then p
      else p\<lparr>external_addr := external_addr p @ [addr]\<rparr>)"

definition SetReady :: "RelayPort \<Rightarrow> RelayPort \<times> effect list" where
  "SetReady p =
     (if \<not> ready p
      then (p\<lparr>ready := True\<rparr>,
            map (\<lambda>it. AddAddress (address it) (address it) (ProtoToString (proto it)))
                (external_addr p) @ [SignalAddressReady])
      else (p, []))"

definition ServerAddress :: "RelayPort \<Rightarrow> nat \<Rightarrow> ProtocolAddress option" where
  "ServerAddress p index =
     (if index < length (server_addr p) then Some (server_addr p ! index) else None)"

definition HasMagicCookie :: "env \<Rightarrow> bytes \<Rightarrow> bool" where
  "HasMagicCookie W data =
     (if length data < 24 + length (TURN_MAGIC_COOKIE_VALUE W) then False
      else take (length (TURN_MAGIC_COOKIE_VALUE W)) (drop 24 data) = TURN_MAGIC_COOKIE_VALUE W)"

section \<open>RelayConnection\<close>

definition RelayConnection_SetSocketOption :: "env \<Rightarrow> RelayConnection \<Rightarrow> nat \<Rightarrow> int \<Rightarrow> int \<times> effect list" where
  "RelayConnection_SetSocketOption W c opt v =
     (sock_setopt W (socket c) opt v, [SocketSetOption (socket c) opt v])"

definition RelayConnection_Send :: "env \<Rightarrow> RelayConnection \<Rightarrow> bytes \<Rightarrow> int \<times> effect list" where
  "RelayConnection_Send W c pv =
     (sock_send W (socket c) pv (GetAddress c), [SocketSendTo (socket c) pv (GetAddress c)])"

definition RelayConnection_GetError :: "env \<Rightarrow> RelayConnection \<Rightarrow> int" where
  "RelayConnection_GetError W c = sock_error W (socket c)"

section \<open>RelayEntry\<close>

definition RelayEntry_new :: "SocketAddress \<Rightarrow> RelayEntry" where
  "RelayEntry_new a =
     \<lparr>ext_addr = a, server_index = 0, connected = False, locked = False,
      current_connection = None\<rparr>"

text \<open>
  \<open>Connect\<close>: \<open>newsock\<close> is what the socket factory returns for this attempt
  (\<open>None\<close> for a null socket). The enum has the three protocols only, so one of the
  two factory calls is always made.
\<close>

definition RelayEntry_Connect :: "RelayPort \<Rightarrow> nat option \<Rightarrow> RelayEntry \<Rightarrow> RelayEntry \<times> effect list" where
  "RelayEntry_Connect p newsock e =
     (if connected e then (e, [])
      else case ServerAddress p (server_index e) of
        None \<Rightarrow> (e, [])
      | Some ra \<Rightarrow>
          let disp = (case current_connection e of Some c \<Rightarrow> [Dispose c] | None \<Rightarrow> []);
              e1 = e\<lparr>current_connection := None\<rparr>;
              mk = (if proto ra = PROTO_UDP then [CreateUdpSocket]
                    else [CreateClientTcpSocket (address ra) (proto ra = PROTO_SSLTCP)])
          in (case newsock of
                None \<Rightarrow> (e1, disp @ mk @ [Post kMessageConnectTimeout])
              | Some s \<Rightarrow>
                  let c = \<lparr>socket = s, protocol_address = ra\<rparr>;
                      e2 = e1\<lparr>current_connection := Some c\<rparr>;
                      opts = map (\<lambda>ov. SocketSetOption s (fst ov) (snd ov)) (options p)
                  in if proto ra = PROTO_TCP \<or> proto ra = PROTO_SSLTCP
                     then (e2, disp @ mk @ opts @
                               [PostDelayed kSoftConnectTimeoutMs kMessageConnectTimeout])
                     else (e2, disp @ mk @ opts @ [SendAllocateRequest c 0])))"

definition RelayEntry_GetError :: "env \<Rightarrow> RelayEntry \<Rightarrow> int" where
  "RelayEntry_GetError W e =
     (case current_connection e of Some c \<Rightarrow> RelayConnection_GetError W c | None \<Rightarrow> 0)"

definition RelayEntry_OnConnect ::
  "SocketAddress \<Rightarrow> RelayConnection \<Rightarrow> RelayPort \<times> RelayEntry \<Rightarrow> (RelayPort \<times> RelayEntry) \<times> effect list" where
  "RelayEntry_OnConnect mapped_addr connection pe =
     (let e' = (snd pe)\<lparr>connected := True\<rparr>;
          p1 = AddExternalAddress \<lparr>address = mapped_addr, proto = PROTO_UDP\<rparr> (fst pe);
          r = SetReady p1
      in ((fst r, e'), set_related_address mapped_addr # snd r))"

definition RelayEntry_SendPacket :: "env \<Rightarrow> RelayEntry \<Rightarrow> bytes \<Rightarrow> int \<times> effect list" where
  "RelayEntry_SendPacket W e data =
     (case current_connection e of
        Some c \<Rightarrow> RelayConnection_Send W c data
      | None \<Rightarrow> (0, []))"

text \<open>The STUN Send request that \<open>RelayEntry::SendTo\<close> builds on its wrapped path.\<close>

definition send_request :: "env \<Rightarrow> RelayPort \<Rightarrow> RelayEntry \<Rightarrow> bytes \<Rightarrow> SocketAddress \<Rightarrow> StunMessage" where
  "send_request W p e data addr =
     \<lparr>msg_type = STUN_SEND_REQUEST,
      attrs =
        [StunByteStringAttribute STUN_ATTR_MAGIC_COOKIE (TURN_MAGIC_COOKIE_VALUE W),
         StunByteStringAttribute STUN_ATTR_USERNAME (username_fragment p),
         StunAddressAttribute STUN_ATTR_DESTINATION_ADDRESS (ipaddr addr) (port addr)]
        @ (if ext_addr e = addr then [StunUInt32Attribute STUN_ATTR_OPTIONS 1] else [])
        @ [StunByteStringAttribute STUN_ATTR_DATA data]\<rparr>"

definition RelayEntry_SendTo :: "env \<Rightarrow> RelayPort \<Rightarrow> RelayEntry \<Rightarrow> bytes \<Rightarrow> SocketAddress \<Rightarrow> int \<times> effect list" where
  "RelayEntry_SendTo W p e data addr =
     (if locked e \<and> ext_addr e = addr then RelayEntry_SendPacket W e data
      else RelayEntry_SendPacket W e (stun_write W (send_request W p e data addr)))"

definition RelayEntry_ScheduleKeepAlive :: "RelayEntry \<Rightarrow> effect list" where
  "RelayEntry_ScheduleKeepAlive e =
     (case current_connection e of
        Some c \<Rightarrow> [SendAllocateRequest c kKeepAliveDelay]
      | None \<Rightarrow> [])"

definition RelayEntry_SetSocketOption :: "env \<Rightarrow> RelayEntry \<Rightarrow> nat \<Rightarrow> int \<Rightarrow> int \<times> effect list" where
  "RelayEntry_SetSocketOption W e opt v =
     (case current_connection e of
        Some c \<Rightarrow> RelayConnection_SetSocketOption W c opt v
      | None \<Rightarrow> (0, []))"

definition RelayEntry_HandleConnectFailure ::
  "RelayPort \<Rightarrow> nat option \<Rightarrow> nat option \<Rightarrow> RelayEntry \<Rightarrow> RelayEntry \<times> effect list" where
  "RelayEntry_HandleConnectFailure p newsock sock e =
     (if sock = None \<or>
         (case current_connection e of Some c \<Rightarrow> sock = Some (socket c) | None \<Rightarrow> False)
      then
        let sig = (case current_connection e of
                     Some c \<Rightarrow> [SignalConnectFailure (protocol_address c)]
                   | None \<Rightarrow> []);
            r = RelayEntry_Connect p newsock (e\<lparr>server_index := server_index e + 1\<rparr>)
        in (fst r, sig @ snd r)
      else (e, []))"


text \<open>
  In a build that checks assertions, an \<open>ASSERT\<close> that fails aborts the call
  (\<open>AssertionFailed\<close>); in a build that compiles them out the code goes on. Reading
  \<open>entries_[0]\<close> of an empty vector is \<open>OutOfRange\<close>. In the machine of the last
  section an event that cannot occur in a state is \<open>NotEnabled\<close>.
\<close>

datatype fault = AssertionFailed | OutOfRange | NotEnabled

definition RelayEntry_OnMessage ::
  "env \<Rightarrow> RelayPort \<Rightarrow> nat option \<Rightarrow> nat \<Rightarrow> RelayEntry \<Rightarrow> fault + RelayEntry \<times> effect list" where
  "RelayEntry_OnMessage W p newsock message_id e =
     (if asserts_enabled W \<and> message_id \<noteq> kMessageConnectTimeout then Inl AssertionFailed
      else case current_connection e of
        Some c \<Rightarrow>
          let r = RelayEntry_HandleConnectFailure p newsock (Some (socket c)) e
          in Inr (fst r, SignalSoftTimeout (protocol_address c) # snd r)
      | None \<Rightarrow> Inr (RelayEntry_HandleConnectFailure p newsock None e))"

definition RelayEntry_OnSocketConnect :: "RelayEntry \<Rightarrow> effect list" where
  "RelayEntry_OnSocketConnect e =
     (case current_connection e of
        Some c \<Rightarrow> [SendAllocateRequest c 0]
      | None \<Rightarrow> [])"

definition RelayEntry_OnSocketClose ::
  "RelayPort \<Rightarrow> nat option \<Rightarrow> nat option \<Rightarrow> RelayEntry \<Rightarrow> RelayEntry \<times> effect list" where
  "RelayEntry_OnSocketClose p newsock sock e = RelayEntry_HandleConnectFailure p newsock sock e"

section \<open>AllocateRequest\<close>

text \<open>
  Modelled from the spec: the retry count and the timeout flag are members of the
  \<open>StunRequest\<close> base class, which is not in the source files; a new request starts
  with attempt 0 and is not timed out.
\<close>

record AllocateRequest =
  connection :: RelayConnection
  start_time :: "32 word"
  count :: nat
  timeout :: bool

definition AllocateRequest_new :: "RelayConnection \<Rightarrow> 32 word \<Rightarrow> AllocateRequest" where
  "AllocateRequest_new c now = \<lparr>connection = c, start_time = now, count = 0, timeout = False\<rparr>"

text \<open>
  \<open>1 << count_\<close> is a power of two of an \<open>int\<close>; it and the product by 100 stay
  below \<open>2^31\<close> for every count up to 24, far beyond the five attempts a request makes.
\<close>

definition GetNextDelay :: "AllocateRequest \<Rightarrow> int \<times> AllocateRequest" where
  "GetNextDelay r =
     (let delay = 100 * max (push_bit (count r) 1) 2;
          r1 = r\<lparr>count := count r + 1\<rparr>;
          r2 = (if count r1 = 5 then r1\<lparr>timeout := True\<rparr> else r1)
      in (delay, r2))"

text \<open>The delays and the timeout flags of \<open>n\<close> successive calls.\<close>

fun next_delays :: "nat \<Rightarrow> AllocateRequest \<Rightarrow> (int \<times> bool) list" where
  "next_delays 0 r = []"
| "next_delays (Suc n) r = (fst (GetNextDelay r), timeout (snd (GetNextDelay r)))
                            # next_delays n (snd (GetNextDelay r))"

definition mapped_address :: "StunMessage \<Rightarrow> SocketAddress option" where
  "mapped_address response =
     (case GetAddress_attr (attrs response) STUN_ATTR_MAPPED_ADDRESS of
        None \<Rightarrow> None
      | Some a \<Rightarrow> if family (fst a) \<noteq> 1 then None
                  else Some \<lparr>ipaddr = fst a, port = snd a\<rparr>)"

definition AllocateRequest_OnResponse ::
  "AllocateRequest \<Rightarrow> StunMessage \<Rightarrow> RelayPort \<times> RelayEntry \<Rightarrow> (RelayPort \<times> RelayEntry) \<times> effect list" where
  "AllocateRequest_OnResponse r response pe =
     (let r1 = (case mapped_address response of
                  None \<Rightarrow> (pe, [])
                | Some addr \<Rightarrow> RelayEntry_OnConnect addr (connection r) pe)
      in (fst r1, snd r1 @ RelayEntry_ScheduleKeepAlive (snd (fst r1))))"

text \<open>
  \<open>time_since\<close> is the value of \<open>talk_base::TimeSince(start_time_)\<close>, a function of
  the clock that is not in the source files.
\<close>

definition AllocateRequest_OnErrorResponse ::
  "int \<Rightarrow> AllocateRequest \<Rightarrow> StunMessage \<Rightarrow> RelayPort \<times> RelayEntry \<Rightarrow> (RelayPort \<times> RelayEntry) \<times> effect list" where
  "AllocateRequest_OnErrorResponse time_since r response pe =
     (if time_since \<le> kRetryTimeout then (pe, RelayEntry_ScheduleKeepAlive (snd pe))
      else (pe, []))"

definition AllocateRequest_OnTimeout ::
  "RelayPort \<Rightarrow> nat option \<Rightarrow> AllocateRequest \<Rightarrow> RelayEntry \<Rightarrow> RelayEntry \<times> effect list" where
  "AllocateRequest_OnTimeout p newsock r e =
     RelayEntry_HandleConnectFailure p newsock (Some (socket (connection r))) e"

section \<open>RelayEntry::OnReadPacket\<close>

text \<open>
  Modelled from the spec: \<open>StunRequestManager::CheckResponse\<close> is not in the source
  files. It returns true iff the message matched an outstanding transaction, whose
  callback then fires: \<open>OnResponse\<close> for a success response, \<open>OnErrorResponse\<close> for
  an error response.
\<close>

datatype verdict =
    Unmatched
  | Matched_Response AllocateRequest
  | Matched_ErrorResponse AllocateRequest

definition data_indication :: "StunMessage \<Rightarrow> effect list" where
  "data_indication msg =
     (case GetAddress_attr (attrs msg) STUN_ATTR_SOURCE_ADDRESS2 of
        None \<Rightarrow> []
      | Some a \<Rightarrow>
          if family (fst a) \<noteq> 1 then []
          else (case GetByteString_attr (attrs msg) STUN_ATTR_DATA of
                  None \<Rightarrow> []
                | Some d \<Rightarrow> [Port_OnReadPacket d \<lparr>ipaddr = fst a, port = snd a\<rparr> PROTO_UDP]))"

definition RelayEntry_OnReadPacket ::
  "env \<Rightarrow> verdict \<Rightarrow> int \<Rightarrow> nat option \<Rightarrow> bytes \<Rightarrow> RelayPort \<times> RelayEntry
     \<Rightarrow> (RelayPort \<times> RelayEntry) \<times> effect list" where
  "RelayEntry_OnReadPacket W chk time_since sock data pe =
     (case current_connection (snd pe) of
        None \<Rightarrow> (pe, [])
      | Some c \<Rightarrow>
          if sock \<noteq> Some (socket c) then (pe, [])
          else if \<not> HasMagicCookie W data then
            (if locked (snd pe)
             then (pe, [Port_OnReadPacket data (ext_addr (snd pe)) PROTO_UDP])
             else (pe, []))
          else (case stun_read W data of
            None \<Rightarrow> (pe, [])
          | Some msg \<Rightarrow>
              (case chk of
                 Matched_Response r \<Rightarrow> AllocateRequest_OnResponse r msg pe
               | Matched_ErrorResponse r \<Rightarrow> AllocateRequest_OnErrorResponse time_since r msg pe
               | Unmatched \<Rightarrow>
                   if msg_type msg = STUN_SEND_RESPONSE then
                     (case GetUInt32_attr (attrs msg) STUN_ATTR_OPTIONS of
                        Some v \<Rightarrow>
                          if (v AND 1) \<noteq> 0 then ((fst pe, (snd pe)\<lparr>locked := True\<rparr>), [])
                          else (pe, [])
                      | None \<Rightarrow> (pe, []))
                   else if msg_type msg \<noteq> STUN_DATA_INDICATION then (pe, [])
                   else (pe, data_indication msg))))"

section \<open>RelayPort: sending, options, preparation\<close>

definition RelayPort_new :: "bytes \<Rightarrow> ProxyType \<Rightarrow> RelayPort" where
  "RelayPort_new ufrag px =
     \<lparr>server_addr = [], external_addr = [], entries = [RelayEntry_new SocketAddress_nil],
      options = [], ready = False, error = 0, username_fragment = ufrag, proxy_type = px\<rparr>"

definition PrepareAddress :: "env \<Rightarrow> nat option \<Rightarrow> RelayPort \<Rightarrow> fault + RelayPort \<times> effect list" where
  "PrepareAddress W newsock p =
     (if asserts_enabled W \<and> length (entries p) \<noteq> 1 then Inl AssertionFailed
      else if entries p = [] then Inl OutOfRange
      else let r = RelayEntry_Connect p newsock (entries p ! 0)
           in Inr (p\<lparr>entries := (entries p)[0 := fst r], ready := False\<rparr>, snd r))"

text \<open>
  The search loop of \<open>RelayPort::SendTo\<close>: the index of the first entry that is nil
  (when \<open>payload\<close>) or already has the address, and whether it adopts the address.
\<close>

fun find_entry :: "RelayEntry list \<Rightarrow> SocketAddress \<Rightarrow> bool \<Rightarrow> nat \<Rightarrow> (nat \<times> bool) option" where
  "find_entry [] addr payload i = None"
| "find_entry (e # es) addr payload i =
     (if IsNil (ext_addr e) \<and> payload then Some (i, True)
      else if ext_addr e = addr then Some (i, False)
      else find_entry es addr payload (Suc i))"

text \<open>
  The entry \<open>SendTo\<close> selects or creates: the port after the search and the creation,
  the index of the entry (\<open>None\<close> for a null \<open>entry\<close>) and the effects of \<open>Connect\<close>.
\<close>

definition select_entry ::
  "RelayPort \<Rightarrow> SocketAddress \<Rightarrow> bool \<Rightarrow> nat option \<Rightarrow> RelayPort \<times> nat option \<times> effect list" where
  "select_entry p addr payload newsock =
     (case find_entry (entries p) addr payload 0 of
        Some ia \<Rightarrow>
          (if snd ia
           then p\<lparr>entries := (entries p)[fst ia := (entries p ! fst ia)\<lparr>ext_addr := addr\<rparr>]\<rparr>
           else p,
           Some (fst ia), [])
      | None \<Rightarrow>
          if payload then
            let e0 = RelayEntry_new addr;
                e1 = (if entries p \<noteq> [] then e0\<lparr>server_index := server_index (entries p ! 0)\<rparr>
                      else e0);
                r = RelayEntry_Connect p newsock e1
            in (p\<lparr>entries := entries p @ [fst r]\<rparr>, Some (length (entries p)), snd r)
          else (p, None, []))"

text \<open>
  The entry that carries the send: the selected one when it is connected, else entry 0;
  \<open>Inr None\<close> when entry 0 is not connected either.
\<close>

definition usable_entry :: "env \<Rightarrow> RelayPort \<Rightarrow> nat option \<Rightarrow> fault + nat option" where
  "usable_entry W p sel =
     (if (case sel of None \<Rightarrow> True | Some i \<Rightarrow> \<not> connected (entries p ! i)) then
        (if entries p = [] then Inl (if asserts_enabled W then AssertionFailed else OutOfRange)
         else if \<not> connected (entries p ! 0) then Inr None
         else Inr (Some 0))
      else Inr sel)"

text \<open>\<open>return size\<close> converts a \<open>size_t\<close> to the 32-bit \<open>int\<close> the function returns.\<close>

definition int_of_size :: "nat \<Rightarrow> int" where
  "int_of_size n = sint (word_of_nat n :: 32 word)"

definition RelayPort_SendTo ::
  "env \<Rightarrow> bytes \<Rightarrow> SocketAddress \<Rightarrow> bool \<Rightarrow> nat option \<Rightarrow> RelayPort
     \<Rightarrow> fault + RelayPort \<times> int \<times> effect list" where
  "RelayPort_SendTo W data addr payload newsock p =
     (let s = select_entry p addr payload newsock;
          p1 = fst s;
          effs = snd (snd s)
      in case usable_entry W p1 (fst (snd s)) of
           Inl f \<Rightarrow> Inl f
         | Inr None \<Rightarrow> Inr (p1\<lparr>error := EWOULDBLOCK W\<rparr>, SOCKET_ERROR, effs)
         | Inr (Some i) \<Rightarrow>
             let r = RelayEntry_SendTo W p1 (entries p1 ! i) data addr
             in if fst r \<le> 0 then
                  (if asserts_enabled W \<and> \<not> fst r < 0 then Inl AssertionFailed
                   else Inr (p1\<lparr>error := RelayEntry_GetError W (entries p1 ! i)\<rparr>,
                             SOCKET_ERROR, effs @ snd r))
                else Inr (p1, int_of_size (length data), effs @ snd r))"

fun SetOption_loop ::
  "env \<Rightarrow> nat \<Rightarrow> int \<Rightarrow> RelayEntry list \<Rightarrow> int \<times> int \<times> effect list \<Rightarrow> int \<times> int \<times> effect list" where
  "SetOption_loop W opt v [] acc = acc"
| "SetOption_loop W opt v (e # es) acc =
     (let r = RelayEntry_SetSocketOption W e opt v
      in if fst r < 0
         then SetOption_loop W opt v es (-1, RelayEntry_GetError W e, snd (snd acc) @ snd r)
         else SetOption_loop W opt v es (fst acc, fst (snd acc), snd (snd acc) @ snd r))"

text \<open>\<open>SetOption\<close> returns the new port, \<open>result\<close> and the effects.\<close>

definition RelayPort_SetOption :: "env \<Rightarrow> nat \<Rightarrow> int \<Rightarrow> RelayPort \<Rightarrow> RelayPort \<times> int \<times> effect list" where
  "RelayPort_SetOption W opt v p =
     (let l = SetOption_loop W opt v (entries p) (0, error p, [])
      in (p\<lparr>error := fst (snd l), options := options p @ [(opt, v)]\<rparr>, fst l, snd (snd l)))"


section \<open>The port on its message loop\<close>

text \<open>
  Everything runs on one thread: the calls of the ICE layer, the socket callbacks, the
  STUN transactions and the messages an entry posts to itself. A state of the machine
  is the port and the posted connect-timeout messages not yet delivered, each named by
  the index of the entry that posted it.
\<close>

record system =
  sys_port :: RelayPort
  pending :: "nat list"

datatype event =
    Ev_AddServerAddress ProtocolAddress
  | Ev_PrepareAddress "nat option"
  | Ev_SendTo bytes SocketAddress bool "nat option"
  | Ev_SetOption nat int
  | Ev_Message nat "nat option"
  | Ev_SocketConnect nat
  | Ev_SocketClose nat nat "nat option"
  | Ev_AllocateTimeout nat AllocateRequest "nat option"
  | Ev_ReadPacket nat nat bytes verdict int

definition is_post :: "effect \<Rightarrow> bool" where
  "is_post x = (case x of Post _ \<Rightarrow> True | PostDelayed _ _ \<Rightarrow> True | _ \<Rightarrow> False)"

definition posts :: "effect list \<Rightarrow> nat" where
  "posts es = length (filter is_post es)"

text \<open>An entry callback on entry \<open>i\<close> writes the entry back and queues what it posted.\<close>

definition entry_result :: "system \<Rightarrow> nat \<Rightarrow> RelayEntry \<times> effect list \<Rightarrow> nat list \<Rightarrow> system \<times> effect list" where
  "entry_result s i r q =
     (\<lparr>sys_port = (sys_port s)\<lparr>entries := (entries (sys_port s))[i := fst r]\<rparr>,
       pending = q @ replicate (posts (snd r)) i\<rparr>, snd r)"

definition step :: "env \<Rightarrow> event \<Rightarrow> system \<Rightarrow> fault + system \<times> effect list" where
  "step W ev s =
     (let p = sys_port s in
      case ev of
        Ev_AddServerAddress a \<Rightarrow> Inr (s\<lparr>sys_port := AddServerAddress a p\<rparr>, [])
      | Ev_PrepareAddress newsock \<Rightarrow>
          (case PrepareAddress W newsock p of
             Inl f \<Rightarrow> Inl f
           | Inr r \<Rightarrow> Inr (\<lparr>sys_port = fst r,
                             pending = pending s @ replicate (posts (snd r)) 0\<rparr>, snd r))
      | Ev_SendTo data addr payload newsock \<Rightarrow>
          (case RelayPort_SendTo W data addr payload newsock p of
             Inl f \<Rightarrow> Inl f
           | Inr r \<Rightarrow> Inr (\<lparr>sys_port = fst r,
                             pending = pending s @ replicate (posts (snd (snd r))) (length (entries p))\<rparr>,
                           snd (snd r)))
      | Ev_SetOption opt v \<Rightarrow>
          (let r = RelayPort_SetOption W opt v p
           in Inr (s\<lparr>sys_port := fst r\<rparr>, snd (snd r)))
      | Ev_Message i newsock \<Rightarrow>
          if \<not> (i < length (entries p) \<and> i \<in> set (pending s)) then Inl NotEnabled
          else (case RelayEntry_OnMessage W p newsock kMessageConnectTimeout (entries p ! i) of
                  Inl f \<Rightarrow> Inl f
                | Inr r \<Rightarrow> Inr (entry_result s i r (remove1 i (pending s))))
      | Ev_SocketConnect i \<Rightarrow>
          if \<not> i < length (entries p) then Inl NotEnabled
          else Inr (s, RelayEntry_OnSocketConnect (entries p ! i))
      | Ev_SocketClose i sock newsock \<Rightarrow>
          if \<not> i < length (entries p) then Inl NotEnabled
          else Inr (entry_result s i
                      (RelayEntry_OnSocketClose p newsock (Some sock) (entries p ! i)) (pending s))
      | Ev_AllocateTimeout i r newsock \<Rightarrow>
          if \<not> i < length (entries p) then Inl NotEnabled
          else Inr (entry_result s i
                      (AllocateRequest_OnTimeout p newsock r (entries p ! i)) (pending s))
      | Ev_ReadPacket i sock data chk time_since \<Rightarrow>
          if \<not> i < length (entries p) then Inl NotEnabled
          else (let r = RelayEntry_OnReadPacket W chk time_since (Some sock) data (p, entries p ! i)
                in Inr (s\<lparr>sys_port := (fst (fst r))\<lparr>entries := (entries p)[i := snd (fst r)]\<rparr>\<rparr>,
                        snd r)))"

fun run :: "env \<Rightarrow> event list \<Rightarrow> system \<Rightarrow> fault + system \<times> effect list" where
  "run W [] s = Inr (s, [])"
| "run W (ev # evs) s =
     (case step W ev s of
        Inl f \<Rightarrow> Inl f
      | Inr r \<Rightarrow> (case run W evs (fst r) of
                    Inl f \<Rightarrow> Inl f
                  | Inr r2 \<Rightarrow> Inr (fst r2, snd r @ snd r2)))"

definition system_new :: "bytes \<Rightarrow> ProxyType \<Rightarrow> system" where
  "system_new ufrag px = \<lparr>sys_port = RelayPort_new ufrag px, pending = []\<rparr>"

inductive reachable :: "env \<Rightarrow> system \<Rightarrow> bool" for W :: env where
  reachable_new: "reachable W (system_new ufrag px)"
| reachable_step: "reachable W s \<Longrightarrow> step W ev s = Inr (s', es) \<Longrightarrow> reachable W s'"

definition is_PrepareAddress :: "event \<Rightarrow> bool" where
  "is_PrepareAddress ev = (case ev of Ev_PrepareAddress _ \<Rightarrow> True | _ \<Rightarrow> False)"

text \<open>
  What \<open>PrepareAddress\<close> asserts, along a run: every call of it finds a port with
  exactly one entry.
\<close>

fun prepare_alone :: "env \<Rightarrow> event list \<Rightarrow> system \<Rightarrow> bool" where
  "prepare_alone W [] s = True"
| "prepare_alone W (ev # evs) s =
     ((if is_PrepareAddress ev then length (entries (sys_port s)) = 1 else True)
      \<and> (case step W ev s of Inl f \<Rightarrow> True | Inr r \<Rightarrow> prepare_alone W evs (fst r)))"

definition is_AddAddress :: "effect \<Rightarrow> bool" where
  "is_AddAddress x = (case x of AddAddress _ _ _ \<Rightarrow> True | _ \<Rightarrow> False)"

text \<open>The effects that follow the first \<open>SignalAddressReady\<close> of a trace.\<close>

definition after_ready :: "effect list \<Rightarrow> effect list" where
  "after_ready es = drop 1 (dropWhile (\<lambda>x. x \<noteq> SignalAddressReady) es)"

section \<open>A concrete relay server\<close>

text \<open>
  One world to run the definitions in: a build with the assertions compiled out, sockets
  that send everything, a cookie of four bytes, and a decoder that knows two packets of the server, a Send response that grants
  the lock and an Allocate response with a mapped address.
\<close>

definition cookie4 :: bytes where
  "cookie4 = [0x72, 0xC6, 0x4B, 0xC6]"

definition lock_packet :: bytes where
  "lock_packet = [0x01, 0x04, 0x00, 0x10] @ replicate 16 0x2A
                 @ [0x00, 0x0F, 0x00, 0x04] @ cookie4
                 @ [0x80, 0x01, 0x00, 0x04, 0x00, 0x00, 0x00, 0x01]"

definition allocate_packet :: bytes where
  "allocate_packet = [0x01, 0x03, 0x00, 0x14] @ replicate 16 0x2B
                     @ [0x00, 0x0F, 0x00, 0x04] @ cookie4
                     @ [0x00, 0x01, 0x00, 0x08, 0x00, 0x01, 0x9C, 0x40, 0xC6, 0x33, 0x64, 0x07]"

definition mapped7 :: SocketAddress where
  "mapped7 = \<lparr>ipaddr = IPV4 3325256711, port = 40000\<rparr>"

definition lock_response :: StunMessage where
  "lock_response =
     \<lparr>msg_type = STUN_SEND_RESPONSE,
      attrs = [StunByteStringAttribute STUN_ATTR_MAGIC_COOKIE cookie4,
               StunUInt32Attribute STUN_ATTR_OPTIONS 1]\<rparr>"

definition allocate_response :: StunMessage where
  "allocate_response =
     \<lparr>msg_type = STUN_ALLOCATE_RESPONSE,
      attrs = [StunByteStringAttribute STUN_ATTR_MAGIC_COOKIE cookie4,
               StunAddressAttribute STUN_ATTR_MAPPED_ADDRESS (IPV4 3325256711) 40000]\<rparr>"

definition relay_read :: "bytes \<Rightarrow> StunMessage option" where
  "relay_read b =
     (if b = lock_packet then Some lock_response
      else if b = allocate_packet then Some allocate_response
      else None)"

definition relay_write :: "StunMessage \<Rightarrow> bytes" where
  "relay_write m = replicate 24 0 @ cookie4 @ replicate (length (attrs m)) 1"

definition relay_env :: env where
  "relay_env =
     \<lparr>sock_send = (\<lambda>s d a. int (length d)),
      sock_setopt = (\<lambda>s opt v. if s = 0 then 0 else -1),
      sock_error = (\<lambda>s. 100 + int s),
      stun_write = relay_write,
      stun_read = relay_read,
      TURN_MAGIC_COOKIE_VALUE = cookie4,
      EWOULDBLOCK = 11,
      asserts_enabled = False\<rparr>"

definition udp_server :: ProtocolAddress where
  "udp_server = \<lparr>address = \<lparr>ipaddr = IPV4 167772161, port = 3478\<rparr>, proto = PROTO_UDP\<rparr>"

definition conn1 :: RelayConnection where
  "conn1 = \<lparr>socket = 1, protocol_address = udp_server\<rparr>"

definition conn2 :: RelayConnection where
  "conn2 = \<lparr>socket = 2, protocol_address = udp_server\<rparr>"

definition peer :: SocketAddress where
  "peer = \<lparr>ipaddr = IPV4 3405803785, port = 5000\<rparr>"

definition entry_on :: "bool \<Rightarrow> bool \<Rightarrow> SocketAddress \<Rightarrow> RelayEntry" where
  "entry_on cn lk a = \<lparr>ext_addr = a, server_index = 0, connected = cn, locked = lk,
                       current_connection = Some conn1\<rparr>"

text \<open>
  Three runs of the machine in that world. In the first the server answers the first
  Allocate request with a Send response that grants the lock. In the second it answers
  with an Allocate response, twice (the second answers the keep-alive). In the third the
  ICE layer sends to two peers before any answer, so that the port has two entries.
\<close>

definition lock_events :: "event list" where
  "lock_events = [Ev_AddServerAddress udp_server, Ev_PrepareAddress (Some 1),
                  Ev_ReadPacket 0 1 lock_packet Unmatched 0]"

definition lock_state :: system where
  "lock_state =
     \<lparr>sys_port = \<lparr>server_addr = [udp_server], external_addr = [],
                   entries = [\<lparr>ext_addr = SocketAddress_nil, server_index = 0, connected = False,
                               locked = True, current_connection = Some conn1\<rparr>],
                   options = [], ready = False, error = 0, username_fragment = [],
                   proxy_type = PROXY_NONE\<rparr>,
      pending = []\<rparr>"

definition ready_events :: "event list" where
  "ready_events = [Ev_AddServerAddress udp_server, Ev_PrepareAddress (Some 1),
                   Ev_ReadPacket 0 1 allocate_packet (Matched_Response (AllocateRequest_new conn1 0)) 0,
                   Ev_ReadPacket 0 1 allocate_packet (Matched_Response (AllocateRequest_new conn1 0)) 0]"

definition ready_port :: RelayPort where
  "ready_port =
     \<lparr>server_addr = [udp_server],
      external_addr = [\<lparr>address = mapped7, proto = PROTO_UDP\<rparr>],
      entries = [\<lparr>ext_addr = SocketAddress_nil, server_index = 0, connected = True,
                  locked = False, current_connection = Some conn1\<rparr>],
      options = [], ready = True, error = 0, username_fragment = [],
      proxy_type = PROXY_NONE\<rparr>"

definition ready_effects :: "effect list" where
  "ready_effects =
     [CreateUdpSocket, SendAllocateRequest conn1 0,
      set_related_address mapped7, AddAddress mapped7 mapped7 ''udp'', SignalAddressReady,
      SendAllocateRequest conn1 600000,
      set_related_address mapped7, SendAllocateRequest conn1 600000]"

definition two_events :: "event list" where
  "two_events = [Ev_AddServerAddress udp_server, Ev_PrepareAddress (Some 1),
                 Ev_SendTo [7] peer True None, Ev_SendTo [7] mapped7 True (Some 2)]"

definition two_port :: RelayPort where
  "two_port =
     \<lparr>server_addr = [udp_server], external_addr = [],
      entries = [\<lparr>ext_addr = peer, server_index = 0, connected = False,
                  locked = False, current_connection = Some conn1\<rparr>,
                 \<lparr>ext_addr = mapped7, server_index = 0, connected = False,
                  locked = False,
                  current_connection = Some \<lparr>socket = 2, protocol_address = udp_server\<rparr>\<rparr>],
      options = [], ready = False, error = 11, username_fragment = [],
      proxy_type = PROXY_NONE\<rparr>"

text \<open>
  A fourth run: the ICE layer sends to two peers, the second entry gets its Allocate
  response, and only then is \<open>PrepareAddress\<close> called, once; the primary entry gets
  its Allocate response after it.
\<close>

definition twice_events :: "event list" where
  "twice_events =
     [Ev_AddServerAddress udp_server,
      Ev_SendTo [7] peer True None, Ev_SendTo [7] mapped7 True (Some 2),
      Ev_ReadPacket 1 2 allocate_packet (Matched_Response (AllocateRequest_new conn2 0)) 0,
      Ev_PrepareAddress (Some 1),
      Ev_ReadPacket 0 1 allocate_packet (Matched_Response (AllocateRequest_new conn1 0)) 0]"

definition twice_port :: RelayPort where
  "twice_port =
     \<lparr>server_addr = [udp_server],
      external_addr = [\<lparr>address = mapped7, proto = PROTO_UDP\<rparr>],
      entries = [\<lparr>ext_addr = peer, server_index = 0, connected = True,
                  locked = False, current_connection = Some conn1\<rparr>,
                 \<lparr>ext_addr = mapped7, server_index = 0, connected = True,
                  locked = False, current_connection = Some conn2\<rparr>],
      options = [], ready = True, error = 11, username_fragment = [],
      proxy_type = PROXY_NONE\<rparr>"

definition twice_effects :: "effect list" where
  "twice_effects =
     [CreateUdpSocket, SendAllocateRequest conn2 0,
      set_related_address mapped7, AddAddress mapped7 mapped7 ''udp'', SignalAddressReady,
      SendAllocateRequest conn2 600000,
      CreateUdpSocket, SendAllocateRequest conn1 0,
      set_related_address mapped7, AddAddress mapped7 mapped7 ''udp'', SignalAddressReady,
      SendAllocateRequest conn1 600000]"

text \<open>A buffer of \<open>2^31\<close> bytes.\<close>

definition huge :: bytes where
  "huge = replicate (2 ^ 31) 0"

definition adopted_port :: RelayPort where
  "adopted_port = ready_port\<lparr>entries := [entry_on True False peer]\<rparr>"

definition fallback_port :: RelayPort where
  "fallback_port =
     adopted_port\<lparr>entries := [entry_on True False peer,
                               \<lparr>ext_addr = mapped7, server_index = 0, connected = False,
                                locked = False, current_connection = Some conn2\<rparr>]\<rparr>"

section \<open>Predicates of the proofs\<close>

definition is_SocketSendTo :: "effect \<Rightarrow> bool" where
  "is_SocketSendTo x = (case x of SocketSendTo _ _ _ \<Rightarrow> True | _ \<Rightarrow> False)"

text \<open>The entries whose socket refuses an option, in the order of the port's list.\<close>

definition failing :: "env \<Rightarrow> nat \<Rightarrow> int \<Rightarrow> RelayEntry list \<Rightarrow> RelayEntry list" where
  "failing W opt v es = filter (\<lambda>e. fst (RelayEntry_SetSocketOption W e opt v) < 0) es"

text \<open>An entry that is connected has a current connection.\<close>

definition good :: "RelayEntry \<Rightarrow> bool" where
  "good e = (connected e \<longrightarrow> current_connection e \<noteq> None)"

text \<open>A trace is quiet when it neither signals readiness nor publishes a candidate.\<close>

definition quiet :: "effect list \<Rightarrow> bool" where
  "quiet es = (SignalAddressReady \<notin> set es \<and> \<not> list_ex is_AddAddress es)"

text \<open>
  What a trace may do to \<open>ready_\<close>: a ready port stays ready and quiet; a port that
  becomes ready signals once and publishes nothing after the signal.
\<close>

definition ready_step :: "bool \<Rightarrow> bool \<Rightarrow> effect list \<Rightarrow> bool" where
  "ready_step r r' es =
     (if r then r' \<and> quiet es
      else if r' then count_list es SignalAddressReady = 1 \<and> \<not> list_ex is_AddAddress (after_ready es)
      else quiet es)"

text \<open>
  Before \<open>PrepareAddress\<close>: a port whose only entry is the primary one has posted no
  message and has opened no connection.
\<close>

definition unprepared :: "system \<Rightarrow> bool" where
  "unprepared s =
     (1 \<le> length (entries (sys_port s)) \<and>
      (length (entries (sys_port s)) = 1 \<longrightarrow>
         pending s = [] \<and> current_connection (entries (sys_port s) ! 0) = None))"

section \<open>Inbound packets without the magic cookie\<close>

lemma no_cookie_read:
  "current_connection e = Some c \<Longrightarrow> sock = Some (socket c) \<Longrightarrow> \<not> HasMagicCookie W data \<Longrightarrow>
   RelayEntry_OnReadPacket W chk ts sock data (p, e) =
     (if locked e then ((p, e), [Port_OnReadPacket data (ext_addr e) PROTO_UDP]) else ((p, e), []))"
  by (simp add: RelayEntry_OnReadPacket_def)

lemma HasMagicCookie_stun_read [simp]:
  "HasMagicCookie (W\<lparr>stun_read := f\<rparr>) data = HasMagicCookie W data"
  by (simp add: HasMagicCookie_def)

lemma short_no_cookie: "\<not> HasMagicCookie relay_env [1, 2, 3]"
  by (simp add: HasMagicCookie_def relay_env_def cookie4_def)

text \<open>
  Claim C1. A packet that arrives on the socket of the entry's current connection and
  does not carry the magic cookie at offset 24 is handed unchanged to the port's
  \<open>OnReadPacket\<close>, with the entry's \<open>ext_addr\<close> and \<open>PROTO_UDP\<close>, when the entry is
  locked; when the entry is not locked it is dropped: nothing is delivered. Port and
  entry stay as they are in both cases.
\<close>

theorem C1_unwrapped_packet:
  assumes "current_connection e = Some c" and "sock = Some (socket c)"
    and "\<not> HasMagicCookie W data"
  shows "RelayEntry_OnReadPacket W chk ts sock data (p, e) =
           (if locked e then ((p, e), [Port_OnReadPacket data (ext_addr e) PROTO_UDP])
            else ((p, e), []))"
  using assms by (rule no_cookie_read)

theorem C1_unwrapped_packet_witness:
  "RelayEntry_OnReadPacket relay_env Unmatched 0 (Some 1) [1, 2, 3]
     (RelayPort_new [] PROXY_NONE, entry_on True True peer)
   = ((RelayPort_new [] PROXY_NONE, entry_on True True peer),
      [Port_OnReadPacket [1, 2, 3] peer PROTO_UDP])
   \<and> RelayEntry_OnReadPacket relay_env Unmatched 0 (Some 1) [1, 2, 3]
     (RelayPort_new [] PROXY_NONE, entry_on True False peer)
   = ((RelayPort_new [] PROXY_NONE, entry_on True False peer), [])"
  using C1_unwrapped_packet [of "entry_on True True peer" conn1 "Some 1" relay_env "[1, 2, 3]"
      Unmatched 0 "RelayPort_new [] PROXY_NONE"]
    C1_unwrapped_packet [of "entry_on True False peer" conn1 "Some 1" relay_env "[1, 2, 3]"
      Unmatched 0 "RelayPort_new [] PROXY_NONE"]
    short_no_cookie
  by (simp add: entry_on_def conn1_def)

text \<open>
  Claim C10. A packet shorter than 24 bytes plus the size of the cookie (28 bytes for the
  cookie of four bytes) has no magic cookie for \<open>HasMagicCookie\<close>. So it is never parsed
  as STUN (whatever the decoder \<open>f\<close> would answer plays no part), and on the socket of
  the current connection it is delivered with \<open>ext_addr\<close> and \<open>PROTO_UDP\<close> when the entry
  is locked and dropped otherwise.
\<close>

theorem C10_short_packet:
  assumes "length data < 24 + length (TURN_MAGIC_COOKIE_VALUE W)"
    and "current_connection e = Some c" and "sock = Some (socket c)"
  shows "\<not> HasMagicCookie W data
       \<and> RelayEntry_OnReadPacket (W\<lparr>stun_read := f\<rparr>) chk ts sock data (p, e) =
           (if locked e then ((p, e), [Port_OnReadPacket data (ext_addr e) PROTO_UDP])
            else ((p, e), []))"
proof -
  have nc: "\<not> HasMagicCookie W data"
    using assms(1) by (simp add: HasMagicCookie_def)
  then have "\<not> HasMagicCookie (W\<lparr>stun_read := f\<rparr>) data" by simp
  with assms(2,3) show ?thesis using nc by (simp add: no_cookie_read)
qed

theorem C10_short_packet_witness:
  "length (replicate 27 (0 :: byte)) < 24 + length (TURN_MAGIC_COOKIE_VALUE relay_env)
   \<and> \<not> HasMagicCookie relay_env (replicate 27 0)
   \<and> RelayEntry_OnReadPacket (relay_env\<lparr>stun_read := relay_read\<rparr>) Unmatched 0 (Some 1)
       (replicate 27 0) (RelayPort_new [] PROXY_NONE, entry_on True False peer)
     = ((RelayPort_new [] PROXY_NONE, entry_on True False peer), [])"
  using C10_short_packet [where data = "replicate 27 0" and W = relay_env
      and e = "entry_on True False peer" and c = conn1 and sock = "Some 1" and f = relay_read
      and chk = Unmatched and ts = 0 and p = "RelayPort_new [] PROXY_NONE"]
  by (simp add: entry_on_def conn1_def relay_env_def cookie4_def)

section \<open>Outbound packets of an entry\<close>

text \<open>
  Claim C2. \<open>RelayEntry::SendTo\<close> hands one packet to \<open>SendPacket\<close>, which writes
  it to the socket of the current connection. When the entry is locked and \<open>addr\<close> is
  its \<open>ext_addr\<close> the packet is the caller's bytes, with no STUN wrapping; otherwise it
  is the encoded Send request, and that request has an OPTIONS attribute, of value 0x1,
  if and only if \<open>addr\<close> equals the entry's \<open>ext_addr\<close>.
\<close>

theorem C2_send_to:
  "RelayEntry_SendTo W p e data addr =
     RelayEntry_SendPacket W e
       (if locked e \<and> ext_addr e = addr then data
        else stun_write W (send_request W p e data addr))
   \<and> (current_connection e = Some c \<longrightarrow>
        RelayEntry_SendPacket W e wire =
          (sock_send W (socket c) wire (GetAddress c),
           [SocketSendTo (socket c) wire (GetAddress c)]))
   \<and> GetUInt32_attr (attrs (send_request W p e data addr)) STUN_ATTR_OPTIONS =
       (if ext_addr e = addr then Some 1 else None)
   \<and> (StunUInt32Attribute STUN_ATTR_OPTIONS 1 \<in> set (attrs (send_request W p e data addr)))
       = (ext_addr e = addr)
   \<and> (\<exists>v. StunUInt32Attribute STUN_ATTR_OPTIONS v \<in> set (attrs (send_request W p e data addr)))
       = (ext_addr e = addr)"
proof -
  have 1: "RelayEntry_SendTo W p e data addr =
     RelayEntry_SendPacket W e
       (if locked e \<and> ext_addr e = addr then data
        else stun_write W (send_request W p e data addr))"
    by (simp add: RelayEntry_SendTo_def)
  have 2: "current_connection e = Some c \<longrightarrow>
        RelayEntry_SendPacket W e wire =
          (sock_send W (socket c) wire (GetAddress c),
           [SocketSendTo (socket c) wire (GetAddress c)])"
    by (simp add: RelayEntry_SendPacket_def RelayConnection_Send_def)
  have 3: "GetUInt32_attr (attrs (send_request W p e data addr)) STUN_ATTR_OPTIONS =
       (if ext_addr e = addr then Some 1 else None)"
    by (simp add: send_request_def)
  have 4: "(StunUInt32Attribute STUN_ATTR_OPTIONS 1 \<in> set (attrs (send_request W p e data addr)))
       = (ext_addr e = addr)"
    by (simp add: send_request_def)
  have 5: "(\<exists>v. StunUInt32Attribute STUN_ATTR_OPTIONS v \<in> set (attrs (send_request W p e data addr)))
       = (ext_addr e = addr)"
    by (auto simp: send_request_def)
  show ?thesis by (rule conjI [OF 1 conjI [OF 2 conjI [OF 3 conjI [OF 4 5]]]])
qed

theorem C2_send_to_witness:
  "RelayEntry_SendTo relay_env (RelayPort_new [] PROXY_NONE) (entry_on True True peer) [7, 8] peer
     = (2, [SocketSendTo 1 [7, 8] (address udp_server)])
   \<and> RelayEntry_SendTo relay_env (RelayPort_new [] PROXY_NONE) (entry_on True False peer) [7, 8] peer
     = (33, [SocketSendTo 1 (replicate 24 0 @ cookie4 @ [1, 1, 1, 1, 1]) (address udp_server)])
   \<and> RelayEntry_SendTo relay_env (RelayPort_new [] PROXY_NONE) (entry_on True False peer) [7, 8]
       mapped7
     = (32, [SocketSendTo 1 (replicate 24 0 @ cookie4 @ [1, 1, 1, 1]) (address udp_server)])"
proof -
  have c: "current_connection (entry_on lk1 lk2 peer) = Some conn1" for lk1 lk2
    by (simp add: entry_on_def)
  note t1 = C2_send_to [where W = relay_env and p = "RelayPort_new [] PROXY_NONE"
      and e = "entry_on True True peer" and data = "[7, 8]" and addr = peer and c = conn1
      and wire = "[7, 8]"]
  note t2 = C2_send_to [where W = relay_env and p = "RelayPort_new [] PROXY_NONE"
      and e = "entry_on True False peer" and data = "[7, 8]" and addr = peer and c = conn1
      and wire = "replicate 24 0 @ cookie4 @ [1, 1, 1, 1, 1]"]
  note t3 = C2_send_to [where W = relay_env and p = "RelayPort_new [] PROXY_NONE"
      and e = "entry_on True False peer" and data = "[7, 8]" and addr = mapped7 and c = conn1
      and wire = "replicate 24 0 @ cookie4 @ [1, 1, 1, 1]"]
  have w2: "stun_write relay_env (send_request relay_env (RelayPort_new [] PROXY_NONE)
              (entry_on True False peer) [7, 8] peer) = replicate 24 0 @ cookie4 @ [1, 1, 1, 1, 1]"
    by (simp add: relay_env_def relay_write_def send_request_def entry_on_def)
  have w3: "stun_write relay_env (send_request relay_env (RelayPort_new [] PROXY_NONE)
              (entry_on True False peer) [7, 8] mapped7) = replicate 24 0 @ cookie4 @ [1, 1, 1, 1]"
    by (simp add: relay_env_def relay_write_def send_request_def entry_on_def peer_def mapped7_def)
  have l: "locked (entry_on True True peer)" "\<not> locked (entry_on True False peer)"
    "ext_addr (entry_on True True peer) = peer"
    by (simp_all add: entry_on_def)
  have s: "sock_send relay_env s d a = int (length d)" for s d a
    by (simp add: relay_env_def)
  have 1: "RelayEntry_SendTo relay_env (RelayPort_new [] PROXY_NONE) (entry_on True True peer)
             [7, 8] peer = (2, [SocketSendTo 1 [7, 8] (address udp_server)])"
    using t1 c l by (simp add: s GetAddress_def conn1_def)
  have 2: "RelayEntry_SendTo relay_env (RelayPort_new [] PROXY_NONE) (entry_on True False peer)
             [7, 8] peer
           = (33, [SocketSendTo 1 (replicate 24 0 @ cookie4 @ [1, 1, 1, 1, 1]) (address udp_server)])"
    using t2 c l w2 by (simp add: s GetAddress_def conn1_def cookie4_def)
  have 3: "RelayEntry_SendTo relay_env (RelayPort_new [] PROXY_NONE) (entry_on True False peer)
             [7, 8] mapped7
           = (32, [SocketSendTo 1 (replicate 24 0 @ cookie4 @ [1, 1, 1, 1]) (address udp_server)])"
    using t3 c l w3 by (simp add: s GetAddress_def conn1_def cookie4_def)
  show ?thesis using 1 2 3 by simp
qed

section \<open>The retry schedule of an Allocate request\<close>

text \<open>
  Claim C3. The first five calls of \<open>GetNextDelay\<close> on a new Allocate request return
  200, 200, 400, 800 and 1600 milliseconds, the n-th (from 0) being
  \<open>100 * max 2 (2 ^ n)\<close>; the timeout flag is false at the start and after each of the
  first four calls, and true after the fifth.
\<close>

theorem C3_retry_schedule:
  "next_delays 5 (AllocateRequest_new c now) =
     [(200, False), (200, False), (400, False), (800, False), (1600, True)]
   \<and> map fst (next_delays 5 (AllocateRequest_new c now)) = map (\<lambda>n. 100 * max 2 (2 ^ n)) [0..<5]
   \<and> \<not> timeout (AllocateRequest_new c now)"
  by (simp add: AllocateRequest_new_def GetNextDelay_def Let_def numeral_eq_Suc upt_rec)

section \<open>Lemmas on the operations of the port\<close>

lemma int_of_size_small: "n < 2 ^ 31 \<Longrightarrow> int_of_size n = int n"
proof -
  assume a: "n < 2 ^ 31"
  have "int n < 2 ^ 31" using a by (metis of_nat_less_iff of_nat_numeral of_nat_power)
  then show ?thesis
    by (simp add: int_of_size_def signed_of_nat signed_take_bit_int_eq_self)
qed

lemma Connect_no_send: "\<not> list_ex is_SocketSendTo (snd (RelayEntry_Connect p newsock e))"
  by (auto simp: RelayEntry_Connect_def Let_def is_SocketSendTo_def list_ex_iff
      split: option.splits)

lemma select_no_send: "\<not> list_ex is_SocketSendTo (snd (snd (select_entry p addr payload newsock)))"
  using Connect_no_send
  by (auto simp: select_entry_def Let_def split: option.splits)

lemma select_nonempty: "entries p \<noteq> [] \<Longrightarrow> entries (fst (select_entry p addr payload newsock)) \<noteq> []"
  by (auto simp: select_entry_def Let_def split: option.splits)

lemma SetOption_loop_eq:
  "SetOption_loop W opt v es (res, err, effs) =
     (if failing W opt v es = [] then res else -1,
      if failing W opt v es = [] then err else RelayEntry_GetError W (last (failing W opt v es)),
      effs @ concat (map (\<lambda>e. snd (RelayEntry_SetSocketOption W e opt v)) es))"
  by (induction es arbitrary: res err effs) (auto simp: failing_def Let_def)

lemma SetSocketOption_effects:
  "snd (RelayEntry_SetSocketOption W e opt v) =
     (case current_connection e of Some c \<Rightarrow> [SocketSetOption (socket c) opt v] | None \<Rightarrow> [])"
  by (simp add: RelayEntry_SetSocketOption_def RelayConnection_SetSocketOption_def
      split: option.splits)



lemma keep_alive_Some:
  "current_connection e = Some c \<Longrightarrow> RelayEntry_ScheduleKeepAlive e = [SendAllocateRequest c 600000]"
  by (simp add: RelayEntry_ScheduleKeepAlive_def kKeepAliveDelay_def)


section \<open>Reachable states: a connected entry has a connection\<close>

lemma Connect_connected [simp]:
  "connected (fst (RelayEntry_Connect p ns e)) = connected e"
  by (simp add: RelayEntry_Connect_def Let_def split: option.splits)

lemma Connect_when_connected: "connected e \<Longrightarrow> RelayEntry_Connect p ns e = (e, [])"
  by (simp add: RelayEntry_Connect_def)

lemma Connect_good: "good e \<Longrightarrow> good (fst (RelayEntry_Connect p ns e))"
  by (cases "connected e") (simp_all add: Connect_when_connected good_def)

lemma HandleConnectFailure_good:
  "good e \<Longrightarrow> good (fst (RelayEntry_HandleConnectFailure p ns sock e))"
proof -
  assume g: "good e"
  have "good (e\<lparr>server_index := server_index e + 1\<rparr>)" using g by (simp add: good_def)
  then have "good (fst (RelayEntry_Connect p ns (e\<lparr>server_index := server_index e + 1\<rparr>)))"
    by (rule Connect_good)
  then show ?thesis using g by (simp add: RelayEntry_HandleConnectFailure_def Let_def)
qed

lemma OnMessage_good:
  "good e \<Longrightarrow> RelayEntry_OnMessage W p ns m e = Inr r \<Longrightarrow> good (fst r)"
  by (auto simp: RelayEntry_OnMessage_def Let_def HandleConnectFailure_good
      split: if_splits option.splits)

lemma OnReadPacket_entries [simp]:
  "entries (fst (fst (RelayEntry_OnReadPacket W chk ts sock data (p, e)))) = entries p"
  by (simp add: RelayEntry_OnReadPacket_def AllocateRequest_OnResponse_def
      AllocateRequest_OnErrorResponse_def RelayEntry_OnConnect_def SetReady_def
      AddExternalAddress_def Let_def split: option.splits verdict.splits)

lemma OnResponse_entry:
  "snd (fst (AllocateRequest_OnResponse r m (p, e))) =
     (if mapped_address m = None then e else e\<lparr>connected := True\<rparr>)"
  by (simp add: AllocateRequest_OnResponse_def RelayEntry_OnConnect_def Let_def
      split: option.split)

lemma OnErrorResponse_state [simp]:
  "fst (AllocateRequest_OnErrorResponse ts r m pe) = pe"
  by (simp add: AllocateRequest_OnErrorResponse_def)

lemma OnReadPacket_no_connection:
  "current_connection e = None \<Longrightarrow>
   RelayEntry_OnReadPacket W chk ts sock data (p, e) = ((p, e), [])"
  by (simp add: RelayEntry_OnReadPacket_def)

lemma OnReadPacket_connection [simp]:
  "current_connection (snd (fst (RelayEntry_OnReadPacket W chk ts sock data (p, e))))
     = current_connection e"
  by (simp add: RelayEntry_OnReadPacket_def OnResponse_entry
      split: option.split verdict.split)

lemma OnReadPacket_good:
  "good e \<Longrightarrow> good (snd (fst (RelayEntry_OnReadPacket W chk ts sock data (p, e))))"
proof (cases "current_connection e")
  case None
  assume "good e"
  then show ?thesis using None by (simp add: OnReadPacket_no_connection)
next
  case (Some c)
  then show ?thesis by (simp add: good_def)
qed

lemma list_all_update: "list_all P xs \<Longrightarrow> P x \<Longrightarrow> list_all P (xs[i := x])"
  by (metis list_all_iff insertE set_update_subset_insert subsetD)

lemma select_entry_good:
  "list_all good (entries p) \<Longrightarrow> list_all good (entries (fst (select_entry p addr payload ns)))"
proof -
  assume a: "list_all good (entries p)"
  have n: "good (fst (RelayEntry_Connect p ns e))" if "\<not> connected e" for e
    using that by (simp add: good_def)
  show ?thesis
  proof (cases "find_entry (entries p) addr payload 0")
    case None
    then show ?thesis using a
      by (simp add: select_entry_def Let_def n RelayEntry_new_def)
  next
    case (Some ia)
    show ?thesis
    proof (cases "snd ia \<and> fst ia < length (entries p)")
      case True
      then have "good (entries p ! fst ia)" using a by (simp add: list_all_length)
      then have "good ((entries p ! fst ia)\<lparr>ext_addr := addr\<rparr>)" by (simp add: good_def)
      with a have "list_all good ((entries p)[fst ia := (entries p ! fst ia)\<lparr>ext_addr := addr\<rparr>])"
        by (rule list_all_update)
      then show ?thesis using Some True by (simp add: select_entry_def)
    next
      case False
      then show ?thesis using Some a by (auto simp: select_entry_def not_less list_update_beyond)
    qed
  qed
qed

lemma SendTo_entries:
  "RelayPort_SendTo W data addr payload ns p = Inr r \<Longrightarrow>
   entries (fst r) = entries (fst (select_entry p addr payload ns))"
  by (auto simp: RelayPort_SendTo_def Let_def split: sum.splits option.splits if_splits)

lemma SetOption_entries [simp]: "entries (fst (RelayPort_SetOption W opt v p)) = entries p"
  by (simp add: RelayPort_SetOption_def Let_def)

lemma nth_good: "list_all good xs \<Longrightarrow> i < length xs \<Longrightarrow> good (xs ! i)"
  by (simp add: list_all_length)

lemma entry_result_good:
  "list_all good (entries (sys_port s)) \<Longrightarrow> good (fst r) \<Longrightarrow>
   list_all good (entries (sys_port (fst (entry_result s i r q))))"
  by (simp add: entry_result_def list_all_update)

lemma entry_step_good:
  "list_all good (entries (sys_port s)) \<Longrightarrow> good (fst r) \<Longrightarrow> entry_result s i r q = (s', es) \<Longrightarrow>
   list_all good (entries (sys_port s'))"
  using entry_result_good [of s r i q] by simp

lemma step_good:
  assumes "list_all good (entries (sys_port s))" and "step W ev s = Inr (s', es)"
  shows "list_all good (entries (sys_port s'))"
proof (cases ev)
  case (Ev_AddServerAddress a)
  then show ?thesis using assms by (auto simp: step_def Let_def AddServerAddress_def)
next
  case (Ev_PrepareAddress ns)
  then show ?thesis using assms
    by (auto simp: step_def PrepareAddress_def Let_def nth_good Connect_good
        intro!: list_all_update split: if_splits)
next
  case (Ev_SendTo data addr payload ns)
  then show ?thesis using assms select_entry_good [of "sys_port s" addr payload ns]
    by (auto simp: step_def Let_def dest!: SendTo_entries split: sum.splits)
next
  case (Ev_SetOption opt v)
  then show ?thesis using assms by (auto simp: step_def Let_def)
next
  case (Ev_Message i ns)
  show ?thesis
  proof (cases "RelayEntry_OnMessage W (sys_port s) ns kMessageConnectTimeout (entries (sys_port s) ! i)")
    case (Inl f)
    then show ?thesis using assms Ev_Message by (simp add: step_def Let_def split: if_splits)
  next
    case (Inr r)
    have i: "i < length (entries (sys_port s))"
      using assms Ev_Message by (simp add: step_def Let_def split: if_splits)
    then have "good (fst r)" using OnMessage_good [OF _ Inr] assms(1) by (simp add: nth_good)
    then have "list_all good (entries (sys_port (fst (entry_result s i r (remove1 i (pending s))))))"
      using assms(1) by (simp add: entry_result_good)
    moreover have "s' = fst (entry_result s i r (remove1 i (pending s)))"
      using assms(2) Ev_Message Inr by (simp add: step_def Let_def split: if_splits)
    ultimately show ?thesis by simp
  qed
next
  case (Ev_SocketConnect i)
  then show ?thesis using assms by (auto simp: step_def Let_def split: if_splits)
next
  case (Ev_SocketClose i sock ns)
  then show ?thesis using assms
    by (auto simp: step_def Let_def nth_good RelayEntry_OnSocketClose_def
        HandleConnectFailure_good elim!: entry_step_good [rotated 2] split: if_splits)
next
  case (Ev_AllocateTimeout i r ns)
  then show ?thesis using assms
    by (auto simp: step_def Let_def nth_good AllocateRequest_OnTimeout_def
        HandleConnectFailure_good elim!: entry_step_good [rotated 2] split: if_splits)
next
  case (Ev_ReadPacket i sock data chk ts)
  then show ?thesis using assms
    by (auto simp: step_def Let_def nth_good OnReadPacket_good
        intro!: list_all_update split: if_splits)
qed

lemma reachable_good: "reachable W s \<Longrightarrow> list_all good (entries (sys_port s))"
proof (induction rule: reachable.induct)
  case (reachable_new ufrag px)
  then show ?case
    by (simp add: system_new_def RelayPort_new_def RelayEntry_new_def good_def)
next
  case (reachable_step s ev s' es)
  then show ?case using step_good by blast
qed

section \<open>Readiness along a run\<close>

lemma quiet_Nil [simp]: "quiet []"
  by (simp add: quiet_def)

lemma quiet_append [simp]: "quiet (a @ b) = (quiet a \<and> quiet b)"
  by (auto simp: quiet_def list_ex_iff)

lemma quiet_Cons [simp]: "quiet (x # b) = (x \<noteq> SignalAddressReady \<and> \<not> is_AddAddress x \<and> quiet b)"
  by (auto simp: quiet_def list_ex_iff)

lemma quiet_count: "quiet es \<Longrightarrow> count_list es SignalAddressReady = 0"
  by (simp add: quiet_def count_list_0_iff)

lemma after_ready_subset: "set (after_ready es) \<subseteq> set es"
  unfolding after_ready_def
  by (meson set_dropWhileD set_drop_subset subsetD subsetI)

lemma quiet_after_ready: "quiet es \<Longrightarrow> \<not> list_ex is_AddAddress (after_ready es)"
  using after_ready_subset [of es] by (auto simp: quiet_def list_ex_iff)

lemma after_ready_append_quiet: "SignalAddressReady \<notin> set a \<Longrightarrow> after_ready (a @ b) = after_ready b"
proof -
  assume "SignalAddressReady \<notin> set a"
  then have "dropWhile (\<lambda>x. x \<noteq> SignalAddressReady) (a @ b)
               = dropWhile (\<lambda>x. x \<noteq> SignalAddressReady) b"
    by (intro dropWhile_append2) auto
  then show ?thesis by (simp add: after_ready_def)
qed

lemma after_ready_append_signal:
  "SignalAddressReady \<in> set a \<Longrightarrow> after_ready (a @ b) = after_ready a @ b"
proof -
  assume m: "SignalAddressReady \<in> set a"
  then have d: "dropWhile (\<lambda>x. x \<noteq> SignalAddressReady) (a @ b)
                 = dropWhile (\<lambda>x. x \<noteq> SignalAddressReady) a @ b"
    by (intro dropWhile_append1) auto
  obtain y ys where "dropWhile (\<lambda>x. x \<noteq> SignalAddressReady) a = y # ys"
    using m by (cases "dropWhile (\<lambda>x. x \<noteq> SignalAddressReady) a")
      (auto simp: dropWhile_eq_Nil_conv)
  then show ?thesis by (simp add: after_ready_def d)
qed

lemma quiet_ready_step: "quiet es \<Longrightarrow> ready_step r r es"
  by (simp add: ready_step_def)

lemma ready_step_append:
  assumes "ready_step r r1 a" and "ready_step r1 r2 b"
  shows "ready_step r r2 (a @ b)"
proof (cases r)
  case True
  then show ?thesis using assms by (simp add: ready_step_def)
next
  case False
  show ?thesis
  proof (cases r1)
    case True
    then have a: "count_list a SignalAddressReady = 1" "\<not> list_ex is_AddAddress (after_ready a)"
      and b: "r2" "quiet b"
      using assms False by (simp_all add: ready_step_def)
    from a(1) have "SignalAddressReady \<in> set a"
      by (metis count_list_0_iff zero_neq_one)
    then have "after_ready (a @ b) = after_ready a @ b" by (rule after_ready_append_signal)
    then show ?thesis using a b False by (auto simp: ready_step_def quiet_count quiet_def list_ex_iff)
  next
    case r1: False
    then have a: "quiet a" using assms False by (simp add: ready_step_def)
    then have "after_ready (a @ b) = after_ready b"
      by (simp add: after_ready_append_quiet quiet_def)
    then show ?thesis using a assms(2) False r1
      by (auto simp: ready_step_def quiet_count)
  qed
qed

lemma ready_step_bound:
  "ready_step r r' es \<Longrightarrow>
   count_list es SignalAddressReady \<le> 1 \<and> \<not> list_ex is_AddAddress (after_ready es)
   \<and> (SignalAddressReady \<notin> set es \<longrightarrow> \<not> list_ex is_AddAddress es)"
  by (auto simp: ready_step_def quiet_count quiet_after_ready quiet_def count_list_0_iff
      split: if_splits)

lemma Connect_quiet: "quiet (snd (RelayEntry_Connect p ns e))"
  by (auto simp: RelayEntry_Connect_def Let_def quiet_def list_ex_iff is_AddAddress_def
      split: option.splits)

lemma HandleConnectFailure_quiet: "quiet (snd (RelayEntry_HandleConnectFailure p ns sock e))"
  by (simp add: RelayEntry_HandleConnectFailure_def Let_def Connect_quiet is_AddAddress_def
      split: option.split)

lemma OnMessage_quiet: "RelayEntry_OnMessage W p ns m e = Inr r \<Longrightarrow> quiet (snd r)"
  by (auto simp: RelayEntry_OnMessage_def Let_def HandleConnectFailure_quiet is_AddAddress_def
      split: if_splits option.splits)

lemma OnSocketConnect_quiet: "quiet (RelayEntry_OnSocketConnect e)"
  by (simp add: RelayEntry_OnSocketConnect_def is_AddAddress_def split: option.split)

lemma KeepAlive_quiet: "quiet (RelayEntry_ScheduleKeepAlive e)"
  by (simp add: RelayEntry_ScheduleKeepAlive_def is_AddAddress_def split: option.split)

lemma data_indication_quiet: "quiet (data_indication m)"
  by (simp add: data_indication_def is_AddAddress_def split: option.split)

lemma SendPacket_quiet: "quiet (snd (RelayEntry_SendPacket W e d))"
  by (simp add: RelayEntry_SendPacket_def RelayConnection_Send_def is_AddAddress_def
      split: option.split)

lemma entry_SendTo_quiet: "quiet (snd (RelayEntry_SendTo W p e d a))"
  by (simp add: RelayEntry_SendTo_def SendPacket_quiet)

lemma select_quiet: "quiet (snd (snd (select_entry p addr payload ns)))"
  by (simp add: select_entry_def Let_def Connect_quiet split: option.split)

lemma SendTo_quiet:
  "RelayPort_SendTo W data addr payload ns p = Inr r \<Longrightarrow> quiet (snd (snd r))"
  using select_quiet [of p addr payload ns]
    entry_SendTo_quiet
  by (auto simp: RelayPort_SendTo_def Let_def split: sum.splits option.splits if_splits)

lemma SetReady_ready_step: "ready_step (ready p) (ready (fst (SetReady p))) (snd (SetReady p))"
proof (cases "ready p")
  case True
  then show ?thesis by (simp add: SetReady_def ready_step_def)
next
  case False
  define pub where "pub = map (\<lambda>it. AddAddress (address it) (address it)
             (ProtoToString (proto it))) (external_addr p)"
  have n: "SignalAddressReady \<notin> set pub" by (auto simp: pub_def)
  have s1: "after_ready [SignalAddressReady] = []" by (simp add: after_ready_def)
  have a: "after_ready (pub @ [SignalAddressReady]) = []"
    using after_ready_append_quiet [OF n, of "[SignalAddressReady]"] s1 by simp
  have c: "count_list (pub @ [SignalAddressReady]) SignalAddressReady = 1"
    using n by (simp add: count_list_0_iff)
  have "snd (SetReady p) = pub @ [SignalAddressReady]" "ready (fst (SetReady p))"
    using False by (simp_all add: SetReady_def pub_def)
  then show ?thesis using False a c by (simp add: ready_step_def)
qed

lemma AddExternalAddress_ready [simp]: "ready (AddExternalAddress a p) = ready p"
  by (simp add: AddExternalAddress_def)

lemma OnConnect_ready_step:
  "ready_step (ready p) (ready (fst (fst (RelayEntry_OnConnect a k (p, e)))))
     (snd (RelayEntry_OnConnect a k (p, e)))"
proof -
  have "ready_step (ready p) (ready p) [set_related_address a]"
    by (simp add: quiet_ready_step is_AddAddress_def)
  moreover have "ready_step (ready p)
      (ready (fst (SetReady (AddExternalAddress \<lparr>address = a, proto = PROTO_UDP\<rparr> p))))
      (snd (SetReady (AddExternalAddress \<lparr>address = a, proto = PROTO_UDP\<rparr> p)))"
    using SetReady_ready_step [of "AddExternalAddress \<lparr>address = a, proto = PROTO_UDP\<rparr> p"]
    by simp
  ultimately show ?thesis
    using ready_step_append by (fastforce simp: RelayEntry_OnConnect_def Let_def)
qed

lemma OnResponse_ready_step:
  "ready_step (ready p) (ready (fst (fst (AllocateRequest_OnResponse r m (p, e)))))
     (snd (AllocateRequest_OnResponse r m (p, e)))"
proof (cases "mapped_address m")
  case None
  then show ?thesis
    by (simp add: AllocateRequest_OnResponse_def quiet_ready_step KeepAlive_quiet)
next
  case (Some a)
  have "ready_step (ready (fst (fst (RelayEntry_OnConnect a (connection r) (p, e)))))
          (ready (fst (fst (RelayEntry_OnConnect a (connection r) (p, e)))))
          (RelayEntry_ScheduleKeepAlive (snd (fst (RelayEntry_OnConnect a (connection r) (p, e)))))"
    by (simp add: quiet_ready_step KeepAlive_quiet)
  with OnConnect_ready_step [of p a "connection r" e] show ?thesis
    using Some ready_step_append by (simp add: AllocateRequest_OnResponse_def Let_def)
qed

lemma OnReadPacket_ready_step:
  "ready_step (ready p) (ready (fst (fst (RelayEntry_OnReadPacket W chk ts sock data (p, e)))))
     (snd (RelayEntry_OnReadPacket W chk ts sock data (p, e)))"
  by (simp add: RelayEntry_OnReadPacket_def quiet_ready_step OnResponse_ready_step
      AllocateRequest_OnErrorResponse_def KeepAlive_quiet data_indication_quiet is_AddAddress_def
      split: option.split verdict.split)

lemma select_entry_ready [simp]: "ready (fst (select_entry p addr payload ns)) = ready p"
  by (simp add: select_entry_def Let_def split: option.split)

lemma SendTo_ready: "RelayPort_SendTo W data addr payload ns p = Inr r \<Longrightarrow> ready (fst r) = ready p"
  by (auto simp: RelayPort_SendTo_def Let_def split: sum.splits option.splits if_splits)

lemma SetOption_ready [simp]: "ready (fst (RelayPort_SetOption W opt v p)) = ready p"
  by (simp add: RelayPort_SetOption_def Let_def)

lemma SetOption_quiet: "quiet (snd (snd (RelayPort_SetOption W opt v p)))"
  by (auto simp: RelayPort_SetOption_def Let_def SetOption_loop_eq SetSocketOption_effects
      quiet_def list_ex_iff is_AddAddress_def split: option.splits)

lemma entry_result_ready:
  "entry_result s i r q = (s', es) \<Longrightarrow> ready (sys_port s') = ready (sys_port s) \<and> es = snd r"
  by (auto simp: entry_result_def)

lemma step_ready:
  assumes "\<not> is_PrepareAddress ev" and "step W ev s = Inr (s', es)"
  shows "ready_step (ready (sys_port s)) (ready (sys_port s')) es"
proof (cases ev)
  case (Ev_AddServerAddress a)
  then show ?thesis using assms
    by (auto simp: step_def Let_def AddServerAddress_def quiet_ready_step)
next
  case (Ev_PrepareAddress ns)
  then show ?thesis using assms by (simp add: is_PrepareAddress_def)
next
  case (Ev_SendTo data addr payload ns)
  show ?thesis
  proof (cases "RelayPort_SendTo W data addr payload ns (sys_port s)")
    case (Inl f)
    then show ?thesis using assms Ev_SendTo by (simp add: step_def Let_def)
  next
    case (Inr r)
    then have "ready (fst r) = ready (sys_port s)" "quiet (snd (snd r))"
      by (simp_all add: SendTo_ready SendTo_quiet)
    moreover have "sys_port s' = fst r" "es = snd (snd r)"
      using assms Ev_SendTo Inr by (auto simp: step_def Let_def)
    ultimately show ?thesis by (simp add: quiet_ready_step)
  qed
next
  case (Ev_SetOption opt v)
  then show ?thesis using assms SetOption_quiet [of W opt v "sys_port s"]
    by (auto simp: step_def Let_def quiet_ready_step)
next
  case (Ev_Message i ns)
  then show ?thesis using assms
    by (auto simp: step_def Let_def quiet_ready_step dest!: entry_result_ready OnMessage_quiet
        split: if_splits sum.splits)
next
  case (Ev_SocketConnect i)
  then show ?thesis using assms
    by (auto simp: step_def Let_def quiet_ready_step OnSocketConnect_quiet split: if_splits)
next
  case (Ev_SocketClose i sock ns)
  then show ?thesis using assms
    by (auto simp: step_def Let_def quiet_ready_step RelayEntry_OnSocketClose_def
        HandleConnectFailure_quiet dest!: entry_result_ready split: if_splits)
next
  case (Ev_AllocateTimeout i r ns)
  then show ?thesis using assms
    by (auto simp: step_def Let_def quiet_ready_step AllocateRequest_OnTimeout_def
        HandleConnectFailure_quiet dest!: entry_result_ready split: if_splits)
next
  case (Ev_ReadPacket i sock data chk ts)
  then show ?thesis using assms
      OnReadPacket_ready_step [of "sys_port s" W chk ts "Some sock" data "entries (sys_port s) ! i"]
    by (auto simp: step_def Let_def split: if_splits)
qed

lemma run_ready:
  "\<not> list_ex is_PrepareAddress evs \<Longrightarrow> run W evs s = Inr (s', es) \<Longrightarrow>
   ready_step (ready (sys_port s)) (ready (sys_port s')) es"
proof (induction evs arbitrary: s es)
  case Nil
  then show ?case by (simp add: quiet_ready_step)
next
  case (Cons ev evs)
  from Cons.prems(2) obtain r r2 where st: "step W ev s = Inr r" and rn: "run W evs (fst r) = Inr r2"
    and e: "s' = fst r2" "es = snd r @ snd r2"
    by (auto split: sum.splits)
  have 1: "ready_step (ready (sys_port s)) (ready (sys_port (fst r))) (snd r)"
    using step_ready [of ev W s "fst r" "snd r"] st Cons.prems(1) by simp
  have 2: "ready_step (ready (sys_port (fst r))) (ready (sys_port (fst r2))) (snd r2)"
    using Cons.IH [of "fst r" "snd r2"] rn Cons.prems(1) e by simp
  show ?case using ready_step_append [OF 1 2] e by simp
qed

lemma select_entry_length:
  "length (entries p) \<le> length (entries (fst (select_entry p addr payload ns)))"
  by (simp add: select_entry_def Let_def split: option.split)

lemma select_entry_same_length:
  assumes "length (entries (fst (select_entry p addr payload ns))) = length (entries p)"
  shows "snd (snd (select_entry p addr payload ns)) = []
       \<and> map current_connection (entries (fst (select_entry p addr payload ns)))
           = map current_connection (entries p)"
proof (cases "find_entry (entries p) addr payload 0")
  case None
  then show ?thesis using assms by (simp add: select_entry_def Let_def split: if_splits)
next
  case (Some ia)
  have "map current_connection ((entries p)[i := (entries p ! i)\<lparr>ext_addr := addr\<rparr>])
          = map current_connection (entries p)" for i
    by (cases "i < length (entries p)")
      (auto simp: list_eq_iff_nth_eq nth_list_update list_update_beyond)
  then show ?thesis using Some by (simp add: select_entry_def)
qed

lemma posts_Nil [simp]: "posts [] = 0"
  by (simp add: posts_def)

lemma posts_append [simp]: "posts (a @ b) = posts a + posts b"
  by (simp add: posts_def)

lemma entry_SendTo_posts [simp]: "posts (snd (RelayEntry_SendTo W p e d a)) = 0"
  by (simp add: RelayEntry_SendTo_def RelayEntry_SendPacket_def RelayConnection_Send_def
      posts_def is_post_def split: option.split)

lemma SendTo_same_length:
  assumes "RelayPort_SendTo W data addr payload ns p = Inr r"
    and "length (entries (fst r)) = length (entries p)"
  shows "posts (snd (snd r)) = 0
       \<and> map current_connection (entries (fst r)) = map current_connection (entries p)"
proof -
  have e: "entries (fst r) = entries (fst (select_entry p addr payload ns))"
    using assms(1) by (rule SendTo_entries)
  with assms(2) have l: "length (entries (fst (select_entry p addr payload ns))) = length (entries p)"
    by simp
  note sl = select_entry_same_length [OF l]
  have "posts (snd (snd r)) = 0"
    using assms(1) sl
    by (auto simp: RelayPort_SendTo_def Let_def split: sum.splits option.splits if_splits)
  then show ?thesis using e sl by simp
qed

lemma HandleConnectFailure_stale:
  "current_connection e = None \<Longrightarrow>
   RelayEntry_HandleConnectFailure p ns (Some sock) e = (e, [])"
  by (simp add: RelayEntry_HandleConnectFailure_def)

lemma entry_result_same:
  "i < length (entries (sys_port s)) \<Longrightarrow>
   entry_result s i (entries (sys_port s) ! i, []) (pending s) = (s, [])"
  by (simp add: entry_result_def)

lemma step_length:
  assumes "step W ev s = Inr (s', es)"
  shows "length (entries (sys_port s)) \<le> length (entries (sys_port s'))"
proof (cases ev)
  case (Ev_SendTo data addr payload ns)
  then show ?thesis using assms select_entry_length [of "sys_port s" addr payload ns]
    by (auto simp: step_def Let_def dest!: SendTo_entries split: sum.splits)
next
  case (Ev_PrepareAddress ns)
  then show ?thesis using assms
    by (auto simp: step_def Let_def PrepareAddress_def split: sum.splits if_splits)
qed (use assms in \<open>auto simp: step_def Let_def AddServerAddress_def entry_result_def
      split: sum.splits if_splits\<close>)

lemma prepare_alone_step:
  "prepare_alone W (ev # evs) s \<Longrightarrow> step W ev s = Inr r \<Longrightarrow> prepare_alone W evs (fst r)"
  by simp

lemma run_prepare_length:
  "prepare_alone W evs s \<Longrightarrow> run W evs s = Inr r \<Longrightarrow> list_ex is_PrepareAddress evs \<Longrightarrow>
   length (entries (sys_port s)) \<le> 1"
proof (induction evs arbitrary: s r)
  case Nil
  then show ?case by simp
next
  case (Cons ev evs)
  from Cons.prems(2) obtain r1 r2 where st: "step W ev s = Inr r1"
    and rn: "run W evs (fst r1) = Inr r2"
    by (auto split: sum.splits)
  have pa: "prepare_alone W evs (fst r1)"
    using Cons.prems(1) st by (rule prepare_alone_step)
  show ?case
  proof (cases "is_PrepareAddress ev")
    case True
    then show ?thesis using Cons.prems(1) by simp
  next
    case False
    then have "list_ex is_PrepareAddress evs" using Cons.prems(3) by simp
    then have "length (entries (sys_port (fst r1))) \<le> 1" using Cons.IH [OF pa rn] by simp
    moreover have "length (entries (sys_port s)) \<le> length (entries (sys_port (fst r1)))"
      using step_length [of W ev s "fst r1" "snd r1"] st by simp
    ultimately show ?thesis by simp
  qed
qed

text \<open>In a build that checks assertions, a run that completes has met the assertion.\<close>

lemma asserted_prepare_alone:
  "asserts_enabled W \<Longrightarrow> run W evs s = Inr r \<Longrightarrow> prepare_alone W evs s"
proof (induction evs arbitrary: s r)
  case Nil
  then show ?case by simp
next
  case (Cons ev evs)
  from Cons.prems(2) obtain r1 r2 where st: "step W ev s = Inr r1"
    and rn: "run W evs (fst r1) = Inr r2"
    by (auto split: sum.splits)
  have "length (entries (sys_port s)) = 1" if "is_PrepareAddress ev"
    using that st Cons.prems(1)
    by (cases ev) (auto simp: is_PrepareAddress_def step_def Let_def PrepareAddress_def
        split: if_splits sum.splits)
  then show ?case using Cons.IH [OF Cons.prems(1) rn] st by simp
qed

lemma step_unprepared:
  assumes "unprepared s" and "length (entries (sys_port s)) = 1"
    and "\<not> is_PrepareAddress ev" and "step W ev s = Inr (s', es)"
  shows "quiet es \<and> unprepared s'"
proof -
  have pn: "pending s = []" and cn: "current_connection (entries (sys_port s) ! 0) = None"
    using assms(1,2) by (simp_all add: unprepared_def)
  show ?thesis
  proof (cases ev)
    case (Ev_AddServerAddress a)
    then show ?thesis using assms
      by (auto simp: step_def Let_def AddServerAddress_def unprepared_def)
  next
    case (Ev_PrepareAddress ns)
    then show ?thesis using assms by (simp add: is_PrepareAddress_def)
  next
    case (Ev_SendTo data addr payload ns)
    show ?thesis
    proof (cases "RelayPort_SendTo W data addr payload ns (sys_port s)")
      case (Inl f)
      then show ?thesis using assms Ev_SendTo by (simp add: step_def Let_def)
    next
      case (Inr r)
      have s': "s' = \<lparr>sys_port = fst r,
                       pending = pending s @ replicate (posts (snd (snd r))) (length (entries (sys_port s)))\<rparr>"
        and es: "es = snd (snd r)"
        using assms Ev_SendTo Inr by (auto simp: step_def Let_def)
      have q: "quiet es" using es SendTo_quiet [OF Inr] by simp
      have ge: "1 \<le> length (entries (fst r))"
        using step_length [OF assms(4)] assms(2) s' by simp
      have "pending s' = [] \<and> current_connection (entries (sys_port s') ! 0) = None"
        if l: "length (entries (fst r)) = 1"
      proof -
        from l assms(2) have "length (entries (fst r)) = length (entries (sys_port s))" by simp
        note sl = SendTo_same_length [OF Inr this]
        from sl have "map current_connection (entries (fst r)) ! 0
                        = map current_connection (entries (sys_port s)) ! 0" by simp
        then have "current_connection (entries (fst r) ! 0) = None"
          using l assms(2) cn by simp
        then show ?thesis using sl s' pn by simp
      qed
      then show ?thesis using q ge s' by (simp add: unprepared_def)
    qed
  next
    case (Ev_SetOption opt v)
    then show ?thesis using assms SetOption_quiet [of W opt v "sys_port s"]
      by (auto simp: step_def Let_def unprepared_def)
  next
    case (Ev_Message i ns)
    then show ?thesis using assms pn by (auto simp: step_def Let_def)
  next
    case (Ev_SocketConnect i)
    then show ?thesis using assms
      by (auto simp: step_def Let_def OnSocketConnect_quiet split: if_splits)
  next
    case (Ev_SocketClose i sock ns)
    then show ?thesis using assms cn
      by (auto simp: step_def Let_def RelayEntry_OnSocketClose_def HandleConnectFailure_stale
          entry_result_same split: if_splits)
  next
    case (Ev_AllocateTimeout i r ns)
    then show ?thesis using assms cn
      by (auto simp: step_def Let_def AllocateRequest_OnTimeout_def HandleConnectFailure_stale
          entry_result_same split: if_splits)
  next
    case (Ev_ReadPacket i sock data chk ts)
    then show ?thesis using assms cn
      by (auto simp: step_def Let_def OnReadPacket_no_connection split: if_splits)
  qed
qed

section \<open>Runs against the concrete relay server\<close>

lemma cookie_lock_packet: "HasMagicCookie relay_env lock_packet"
  by (simp add: HasMagicCookie_def relay_env_def lock_packet_def cookie4_def)

lemma cookie_allocate_packet: "HasMagicCookie relay_env allocate_packet"
  by (simp add: HasMagicCookie_def relay_env_def allocate_packet_def cookie4_def)

lemma packets_differ: "allocate_packet \<noteq> lock_packet"
  by (simp add: allocate_packet_def lock_packet_def)

lemma relay_env_simps [simp]:
  "stun_read relay_env = relay_read" "TURN_MAGIC_COOKIE_VALUE relay_env = cookie4"
  "EWOULDBLOCK relay_env = 11" "stun_write relay_env = relay_write"
  "sock_send relay_env s d a = int (length d)"
  "sock_setopt relay_env s opt v = (if s = 0 then 0 else -1)"
  "sock_error relay_env s = 100 + int s"
  "asserts_enabled relay_env = False"
  by (simp_all add: relay_env_def)

lemma mapped_allocate_response: "mapped_address allocate_response = Some mapped7"
  by (simp add: mapped_address_def allocate_response_def family_def mapped7_def)


lemma run_reachable:
  "reachable W s \<Longrightarrow> run W evs s = Inr (s', es) \<Longrightarrow> reachable W s'"
proof (induction evs arbitrary: s es)
  case Nil
  then show ?case by simp
next
  case (Cons ev evs)
  from Cons.prems(2) obtain r r2 where st: "step W ev s = Inr r" and rn: "run W evs (fst r) = Inr r2"
    and "s' = fst r2"
    by (auto split: sum.splits)
  from st have "step W ev s = Inr (fst r, snd r)" by simp
  with Cons.prems(1) have "reachable W (fst r)" by (rule reachable_step)
  then show ?case using Cons.IH rn \<open>s' = fst r2\<close> by (metis prod.collapse)
qed

lemma lock_run:
  "run relay_env lock_events (system_new [] PROXY_NONE)
     = Inr (lock_state, [CreateUdpSocket, SendAllocateRequest conn1 0])"
  by (simp add: lock_events_def lock_state_def system_new_def RelayPort_new_def RelayEntry_new_def
      step_def Let_def AddServerAddress_def PrepareAddress_def RelayEntry_Connect_def
      ServerAddress_def udp_server_def conn1_def posts_def is_post_def
      RelayEntry_OnReadPacket_def cookie_lock_packet relay_read_def lock_response_def)

lemma ready_run:
  "run relay_env ready_events (system_new [] PROXY_NONE)
     = Inr (\<lparr>sys_port = ready_port, pending = []\<rparr>, ready_effects)"
  by (simp add: ready_events_def ready_port_def ready_effects_def system_new_def RelayPort_new_def
      RelayEntry_new_def
      step_def Let_def AddServerAddress_def PrepareAddress_def RelayEntry_Connect_def
      ServerAddress_def udp_server_def conn1_def posts_def is_post_def
      RelayEntry_OnReadPacket_def cookie_allocate_packet relay_read_def packets_differ
      AllocateRequest_OnResponse_def mapped_allocate_response RelayEntry_OnConnect_def
      AddExternalAddress_def SetReady_def RelayEntry_ScheduleKeepAlive_def mapped7_def
      kKeepAliveDelay_def ProtoToString_def AllocateRequest_new_def)

lemma two_run:
  "run relay_env two_events (system_new [] PROXY_NONE)
     = Inr (\<lparr>sys_port = two_port, pending = []\<rparr>,
            [CreateUdpSocket, SendAllocateRequest conn1 0, CreateUdpSocket,
             SendAllocateRequest \<lparr>socket = 2, protocol_address = udp_server\<rparr> 0])"
  by (simp add: two_events_def two_port_def system_new_def RelayPort_new_def
      RelayEntry_new_def step_def Let_def AddServerAddress_def PrepareAddress_def
      RelayEntry_Connect_def ServerAddress_def udp_server_def conn1_def posts_def is_post_def
      RelayPort_SendTo_def select_entry_def usable_entry_def IsNil_def SocketAddress_nil_def
      peer_def mapped7_def SOCKET_ERROR_def)

section \<open>Responses to an Allocate request\<close>



text \<open>
  Claim C9. An error response reaches \<open>OnErrorResponse\<close> from \<open>OnReadPacket\<close>, on an
  entry that has a current connection. With \<open>ts\<close> the time since the start of the
  request, the keep-alive Allocate is scheduled if and only if \<open>ts\<close> is at most
  \<open>kRetryTimeout\<close>, 50000 ms; when more time has passed nothing is done. Port and entry
  are unchanged in both cases.
\<close>

theorem C9_on_error_response:
  assumes "current_connection e = Some c"
  shows "AllocateRequest_OnErrorResponse ts r response (p, e) =
           ((p, e), if ts \<le> 50000 then [SendAllocateRequest c 600000] else [])
       \<and> kRetryTimeout = 50000
       \<and> (HasMagicCookie W data \<and> stun_read W data = Some response \<longrightarrow>
            RelayEntry_OnReadPacket W (Matched_ErrorResponse r) ts (Some (socket c)) data (p, e) =
              ((p, e), if ts \<le> 50000 then [SendAllocateRequest c 600000] else []))"
  using assms
  by (simp add: AllocateRequest_OnErrorResponse_def kRetryTimeout_def keep_alive_Some
      RelayEntry_OnReadPacket_def)

theorem C9_on_error_response_witness:
  "AllocateRequest_OnErrorResponse 250 (AllocateRequest_new conn1 0) lock_response
     (RelayPort_new [] PROXY_NONE, entry_on False False peer)
   = ((RelayPort_new [] PROXY_NONE, entry_on False False peer),
      [SendAllocateRequest conn1 600000])
   \<and> AllocateRequest_OnErrorResponse 50001 (AllocateRequest_new conn1 0) lock_response
     (RelayPort_new [] PROXY_NONE, entry_on False False peer)
   = ((RelayPort_new [] PROXY_NONE, entry_on False False peer), [])
   \<and> RelayEntry_OnReadPacket relay_env (Matched_ErrorResponse (AllocateRequest_new conn1 0)) 50000
       (Some 1) lock_packet (RelayPort_new [] PROXY_NONE, entry_on False False peer)
   = ((RelayPort_new [] PROXY_NONE, entry_on False False peer),
      [SendAllocateRequest conn1 600000])"
proof -
  have a: "current_connection (entry_on False False peer) = Some conn1"
    by (simp add: entry_on_def)
  have b: "stun_read relay_env lock_packet = Some lock_response"
    by (simp add: relay_read_def)
  have c: "socket conn1 = 1" by (simp add: conn1_def)
  note t1 = C9_on_error_response [OF a, where ts = 250 and r = "AllocateRequest_new conn1 0"
        and response = lock_response and p = "RelayPort_new [] PROXY_NONE"
        and W = relay_env and data = lock_packet, THEN conjunct1]
  note t2 = C9_on_error_response [OF a, where ts = 50001 and r = "AllocateRequest_new conn1 0"
        and response = lock_response and p = "RelayPort_new [] PROXY_NONE"
        and W = relay_env and data = lock_packet, THEN conjunct1]
  note t3 = C9_on_error_response [OF a, where ts = 50000 and r = "AllocateRequest_new conn1 0"
        and response = lock_response and p = "RelayPort_new [] PROXY_NONE"
        and W = relay_env and data = lock_packet, THEN conjunct2, THEN conjunct2, THEN mp,
        OF conjI [OF cookie_lock_packet b]]
  show ?thesis using t1 t2 t3 c by simp
qed

section \<open>Sending through the port\<close>

text \<open>
  Claim C4, as amended. Let \<open>p1\<close> be the port after \<open>SendTo\<close> has selected or created
  its entry, \<open>sel\<close> that entry and \<open>effs\<close> what creating it did. When the entry is null
  or not connected the send goes through entry 0 of \<open>p1\<close>; when entry 0 is not connected
  either, the port's error becomes \<open>EWOULDBLOCK\<close>, \<open>SOCKET_ERROR\<close> is returned and
  nothing is written to a socket. A send that the socket accepts returns the caller's
  size converted to \<open>int\<close>, not the size of the wrapped packet: for a size below
  \<open>2^31\<close> a call that does not return \<open>SOCKET_ERROR\<close> returns the caller's size.
\<close>

theorem C4_port_send_to:
  fixes p :: RelayPort and addr :: SocketAddress and payload :: bool and newsock :: "nat option"
    and W :: env and data :: bytes
  assumes "entries p \<noteq> []"
  defines "p1 \<equiv> fst (select_entry p addr payload newsock)"
    and "sel \<equiv> fst (snd (select_entry p addr payload newsock))"
    and "effs \<equiv> snd (snd (select_entry p addr payload newsock))"
  defines "unconnected \<equiv> (case sel of None \<Rightarrow> True | Some i \<Rightarrow> \<not> connected (entries p1 ! i))"
  defines "send_on \<equiv> (\<lambda>i. let r = RelayEntry_SendTo W p1 (entries p1 ! i) data addr
             in if fst r \<le> 0
                then (if asserts_enabled W \<and> fst r = 0 then Inl AssertionFailed
                      else Inr (p1\<lparr>error := RelayEntry_GetError W (entries p1 ! i)\<rparr>,
                                SOCKET_ERROR, effs @ snd r))
                else Inr (p1, int_of_size (length data), effs @ snd r))"
  shows "(unconnected \<and> connected (entries p1 ! 0) \<longrightarrow>
            RelayPort_SendTo W data addr payload newsock p = send_on 0)
       \<and> (unconnected \<and> \<not> connected (entries p1 ! 0) \<longrightarrow>
            RelayPort_SendTo W data addr payload newsock p
              = Inr (p1\<lparr>error := EWOULDBLOCK W\<rparr>, SOCKET_ERROR, effs)
            \<and> \<not> list_ex is_SocketSendTo effs)
       \<and> (\<not> unconnected \<longrightarrow>
            RelayPort_SendTo W data addr payload newsock p = send_on (the sel))
       \<and> (length data < 2 ^ 31 \<longrightarrow>
            int_of_size (length data) = int (length data)
            \<and> (\<forall>p' n es. RelayPort_SendTo W data addr payload newsock p = Inr (p', n, es)
                  \<and> n \<noteq> SOCKET_ERROR \<longrightarrow> n = int (length data)))"
proof -
  have ne: "entries p1 \<noteq> []" unfolding p1_def using assms(1) by (rule select_nonempty)
  have ns: "\<not> list_ex is_SocketSendTo effs" unfolding effs_def by (rule select_no_send)
  have 1: "unconnected \<and> connected (entries p1 ! 0) \<longrightarrow>
            RelayPort_SendTo W data addr payload newsock p = send_on 0"
    using ne
    unfolding RelayPort_SendTo_def usable_entry_def send_on_def unconnected_def
      p1_def sel_def effs_def
    by (auto simp: Let_def split: option.splits)
  have 2: "unconnected \<and> \<not> connected (entries p1 ! 0) \<longrightarrow>
            RelayPort_SendTo W data addr payload newsock p
              = Inr (p1\<lparr>error := EWOULDBLOCK W\<rparr>, SOCKET_ERROR, effs)
            \<and> \<not> list_ex is_SocketSendTo effs"
    using ne ns
    unfolding RelayPort_SendTo_def usable_entry_def unconnected_def p1_def sel_def effs_def
    by (auto simp: Let_def split: option.splits)
  have 3: "\<not> unconnected \<longrightarrow>
            RelayPort_SendTo W data addr payload newsock p = send_on (the sel)"
    unfolding RelayPort_SendTo_def usable_entry_def send_on_def unconnected_def
      p1_def sel_def effs_def
    by (auto simp: Let_def split: option.splits)
  have 4: "length data < 2 ^ 31 \<longrightarrow>
            int_of_size (length data) = int (length data)
            \<and> (\<forall>p' n es. RelayPort_SendTo W data addr payload newsock p = Inr (p', n, es)
                  \<and> n \<noteq> SOCKET_ERROR \<longrightarrow> n = int (length data))"
  proof
    assume "length data < 2 ^ 31"
    then have sz: "int_of_size (length data) = int (length data)" by (rule int_of_size_small)
    have "\<forall>p' n es. RelayPort_SendTo W data addr payload newsock p = Inr (p', n, es)
                  \<and> n \<noteq> SOCKET_ERROR \<longrightarrow> n = int_of_size (length data)"
      unfolding RelayPort_SendTo_def
      by (auto simp: Let_def split: sum.splits option.splits if_splits)
    then show "int_of_size (length data) = int (length data)
            \<and> (\<forall>p' n es. RelayPort_SendTo W data addr payload newsock p = Inr (p', n, es)
                  \<and> n \<noteq> SOCKET_ERROR \<longrightarrow> n = int (length data))"
      using sz by simp
  qed
  show ?thesis by (rule conjI [OF 1 conjI [OF 2 conjI [OF 3 4]]])
qed

lemma select_ready_port:
  "select_entry ready_port peer True None
     = (ready_port\<lparr>entries := [entry_on True False peer]\<rparr>, Some 0, [])"
  by (simp add: select_entry_def ready_port_def IsNil_def SocketAddress_nil_def entry_on_def)

lemma select_new_port:
  "select_entry (RelayPort_new [] PROXY_NONE) peer True None
     = ((RelayPort_new [] PROXY_NONE)\<lparr>entries := [RelayEntry_new peer]\<rparr>, Some 0, [])"
  by (simp add: select_entry_def RelayPort_new_def RelayEntry_new_def IsNil_def
      SocketAddress_nil_def)

lemma send_ready_entry:
  "RelayEntry_SendTo relay_env (ready_port\<lparr>entries := [entry_on True False peer]\<rparr>)
     (entry_on True False peer) d peer
   = (33, [SocketSendTo 1 (replicate 24 0 @ cookie4 @ [1, 1, 1, 1, 1]) (address udp_server)])"
  by (simp add: RelayEntry_SendTo_def RelayEntry_SendPacket_def RelayConnection_Send_def
      entry_on_def send_request_def relay_write_def GetAddress_def conn1_def cookie4_def)

lemma select_adopted_port:
  "select_entry adopted_port mapped7 True (Some 2)
     = (fallback_port, Some 1, [CreateUdpSocket, SendAllocateRequest conn2 0])"
  by (simp add: select_entry_def adopted_port_def fallback_port_def ready_port_def IsNil_def
      SocketAddress_nil_def entry_on_def peer_def mapped7_def RelayEntry_new_def
      RelayEntry_Connect_def ServerAddress_def udp_server_def conn2_def Let_def)

lemma send_fallback_entry:
  "RelayEntry_SendTo relay_env fallback_port (entry_on True False peer) [7, 8] mapped7
   = (32, [SocketSendTo 1 (replicate 24 0 @ cookie4 @ [1, 1, 1, 1]) (address udp_server)])"
  by (simp add: RelayEntry_SendTo_def RelayEntry_SendPacket_def RelayConnection_Send_def
      entry_on_def send_request_def relay_write_def GetAddress_def conn1_def cookie4_def
      peer_def mapped7_def)

theorem C4_port_send_to_witness:
  "entries ready_port \<noteq> [] \<and> length [7 :: byte, 8] < 2 ^ 31
   \<and> RelayPort_SendTo relay_env [7, 8] peer True None ready_port
     = Inr (adopted_port, 2,
            [SocketSendTo 1 (replicate 24 0 @ cookie4 @ [1, 1, 1, 1, 1]) (address udp_server)])
   \<and> RelayPort_SendTo relay_env [7, 8] mapped7 True (Some 2) adopted_port
     = Inr (fallback_port, 2,
            [CreateUdpSocket, SendAllocateRequest conn2 0,
             SocketSendTo 1 (replicate 24 0 @ cookie4 @ [1, 1, 1, 1]) (address udp_server)])
   \<and> RelayPort_SendTo relay_env [7, 8] peer True None (RelayPort_new [] PROXY_NONE)
     = Inr ((RelayPort_new [] PROXY_NONE)\<lparr>entries := [RelayEntry_new peer], error := 11\<rparr>,
            SOCKET_ERROR, [])"
proof -
  have n1: "entries ready_port \<noteq> []" by (simp add: ready_port_def)
  have n2: "entries (RelayPort_new [] PROXY_NONE) \<noteq> []" by (simp add: RelayPort_new_def)
  have n3: "entries adopted_port \<noteq> []" by (simp add: adopted_port_def)
  have l: "length [7 :: byte, 8] < 2 ^ 31" by simp
  note i = C4_port_send_to [OF n1, where addr = peer and payload = True and newsock = None
      and W = relay_env and data = "[7, 8]", THEN conjunct2, THEN conjunct2, THEN conjunct2,
      THEN mp, OF l, THEN conjunct1]
  note t1 = C4_port_send_to [OF n1, where addr = peer and payload = True and newsock = None
      and W = relay_env and data = "[7, 8]", unfolded select_ready_port,
      THEN conjunct2, THEN conjunct2, THEN conjunct1]
  note t2 = C4_port_send_to [OF n2, where addr = peer and payload = True and newsock = None
      and W = relay_env and data = "[7, 8]", unfolded select_new_port,
      THEN conjunct2, THEN conjunct1]
  note t3 = C4_port_send_to [OF n3, where addr = mapped7 and payload = True
      and newsock = "Some 2" and W = relay_env and data = "[7, 8]",
      unfolded select_adopted_port, THEN conjunct1]
  have sz: "int_of_size (length [7 :: byte, 8]) = 2" using i by simp
  have 1: "RelayPort_SendTo relay_env [7, 8] peer True None ready_port
     = Inr (adopted_port, 2,
            [SocketSendTo 1 (replicate 24 0 @ cookie4 @ [1, 1, 1, 1, 1]) (address udp_server)])"
    using t1 sz by (simp add: send_ready_entry adopted_port_def) (simp add: entry_on_def)
  have 2: "RelayPort_SendTo relay_env [7, 8] peer True None (RelayPort_new [] PROXY_NONE)
     = Inr ((RelayPort_new [] PROXY_NONE)\<lparr>entries := [RelayEntry_new peer], error := 11\<rparr>,
            SOCKET_ERROR, [])"
    using t2 by (simp add: RelayEntry_new_def)
  have e0: "entries fallback_port ! 0 = entry_on True False peer"
    and e1: "\<not> connected (entries fallback_port ! 1)"
    by (simp_all add: fallback_port_def)
  have 3: "RelayPort_SendTo relay_env [7, 8] mapped7 True (Some 2) adopted_port
     = Inr (fallback_port, 2,
            [CreateUdpSocket, SendAllocateRequest conn2 0,
             SocketSendTo 1 (replicate 24 0 @ cookie4 @ [1, 1, 1, 1]) (address udp_server)])"
    using t3 e1 sz by (simp add: e0 send_fallback_entry) (simp add: entry_on_def)
  show ?thesis using n1 l 1 2 3 by simp
qed

lemma length_huge: "length huge = 2147483648"
  by (simp add: huge_def)

lemma int_of_size_huge: "int_of_size 2147483648 = - 2147483648"
  by (simp add: int_of_size_def)

text \<open>
  The claim fails for a buffer of \<open>2^31\<close> bytes, sent through the connected primary
  entry: the socket accepts the wrapped packet, and the value returned is negative, not
  the caller's size.
\<close>

theorem C4_counterexample:
  "RelayPort_SendTo relay_env huge peer True None ready_port
     = Inr (adopted_port, - 2147483648,
            [SocketSendTo 1 (replicate 24 0 @ cookie4 @ [1, 1, 1, 1, 1]) (address udp_server)])
   \<and> int (length huge) = 2147483648"
proof -
  have c: "connected (entry_on True False peer)" by (simp add: entry_on_def)
  have "RelayPort_SendTo relay_env huge peer True None ready_port
     = Inr (adopted_port, int_of_size (length huge),
            [SocketSendTo 1 (replicate 24 0 @ cookie4 @ [1, 1, 1, 1, 1]) (address udp_server)])"
    by (simp add: RelayPort_SendTo_def select_ready_port usable_entry_def c send_ready_entry
        adopted_port_def)
  then show ?thesis by (simp add: length_huge int_of_size_huge)
qed

section \<open>Socket options of the port\<close>

text \<open>
  Claim C7, as amended. \<open>SetOption\<close> applies the option to the socket of every entry
  that has a connection, in the order of the entries, and appends \<open>(opt, v)\<close> to the
  options of the port. The loop does not stop at a failure: when one or more entries
  fail, the result is -1 and the error stored in the port is that of the last entry that
  failed; when none fails the result is 0 and the error is unchanged.
\<close>

theorem C7_set_option:
  "entries (fst (RelayPort_SetOption W opt v p)) = entries p
   \<and> snd (snd (RelayPort_SetOption W opt v p)) =
       concat (map (\<lambda>e. case current_connection e of
                          Some c \<Rightarrow> [SocketSetOption (socket c) opt v] | None \<Rightarrow> [])
                   (entries p))
   \<and> options (fst (RelayPort_SetOption W opt v p)) = options p @ [(opt, v)]
   \<and> error (fst (RelayPort_SetOption W opt v p)) =
       (if failing W opt v (entries p) = [] then error p
        else RelayEntry_GetError W (last (failing W opt v (entries p))))
   \<and> fst (snd (RelayPort_SetOption W opt v p)) =
       (if failing W opt v (entries p) = [] then 0 else -1)"
  by (simp add: RelayPort_SetOption_def SetOption_loop_eq Let_def SetSocketOption_effects)

lemma two_failing: "failing relay_env 3 1 (entries two_port) = entries two_port"
  by (simp add: failing_def two_port_def RelayEntry_SetSocketOption_def
      RelayConnection_SetSocketOption_def conn1_def)

text \<open>
  The claim fails on a reachable port with two entries whose sockets both refuse the
  option: the error stored is that of the second entry, 102, not of the first, 101.
\<close>

theorem C7_counterexample:
  "reachable relay_env \<lparr>sys_port = two_port, pending = []\<rparr>
   \<and> failing relay_env 3 1 (entries two_port) = entries two_port
   \<and> RelayEntry_GetError relay_env (hd (failing relay_env 3 1 (entries two_port))) = 101
   \<and> error (fst (RelayPort_SetOption relay_env 3 1 two_port)) = 102"
proof -
  have r: "reachable relay_env \<lparr>sys_port = two_port, pending = []\<rparr>"
    using run_reachable [OF reachable_new two_run] .
  have e: "error (fst (RelayPort_SetOption relay_env 3 1 two_port)) = 102"
    by (simp add: RelayPort_SetOption_def Let_def two_port_def RelayEntry_SetSocketOption_def
        RelayConnection_SetSocketOption_def conn1_def RelayEntry_GetError_def
        RelayConnection_GetError_def)
  have h: "RelayEntry_GetError relay_env (hd (failing relay_env 3 1 (entries two_port))) = 101"
    unfolding two_failing
    by (simp add: two_port_def RelayEntry_GetError_def RelayConnection_GetError_def conn1_def)
  show ?thesis using r e h two_failing by simp
qed

section \<open>The address-ready signal\<close>

lemma step_prepare:
  "step W ev s = Inr (s', es) \<Longrightarrow> is_PrepareAddress ev \<Longrightarrow> \<not> ready (sys_port s') \<and> quiet es"
  by (cases ev) (auto simp: is_PrepareAddress_def step_def Let_def PrepareAddress_def Connect_quiet
      split: if_splits sum.splits)

lemma quiet_prefix:
  assumes "quiet a"
  shows "count_list (a @ b) SignalAddressReady = count_list b SignalAddressReady"
    and "after_ready (a @ b) = after_ready b"
  using assms quiet_count [of a] by (simp_all add: after_ready_append_quiet quiet_def)

lemma run_unprepared:
  "unprepared s \<Longrightarrow> length (filter is_PrepareAddress evs) = 1 \<Longrightarrow> run W evs s = Inr (s', es) \<Longrightarrow>
   prepare_alone W evs s \<Longrightarrow>
   count_list es SignalAddressReady \<le> 1 \<and> \<not> list_ex is_AddAddress (after_ready es)
   \<and> (SignalAddressReady \<notin> set es \<longrightarrow> \<not> list_ex is_AddAddress es)"
proof (induction evs arbitrary: s es)
  case Nil
  then show ?case by simp
next
  case (Cons ev evs)
  from Cons.prems(3) obtain r r2 where st: "step W ev s = Inr r" and rn: "run W evs (fst r) = Inr r2"
    and e: "s' = fst r2" "es = snd r @ snd r2"
    by (auto split: sum.splits)
  have st': "step W ev s = Inr (fst r, snd r)" and rn': "run W evs (fst r) = Inr (s', snd r2)"
    using st rn e by simp_all
  have pa: "prepare_alone W evs (fst r)"
    using Cons.prems(4) st by (rule prepare_alone_step)
  show ?case
  proof (cases "is_PrepareAddress ev")
    case True
    then have "\<not> list_ex is_PrepareAddress evs"
      using Cons.prems(2) by (simp add: list_ex_iff filter_empty_conv)
    then have 2: "ready_step (ready (sys_port (fst r))) (ready (sys_port s')) (snd r2)"
      using rn' by (rule run_ready)
    have "\<not> ready (sys_port (fst r))" "quiet (snd r)"
      using step_prepare [OF st' True] by simp_all
    then have "ready_step False (ready (sys_port (fst r))) (snd r)"
      by (simp add: ready_step_def)
    then have "ready_step False (ready (sys_port s')) es"
      using 2 e ready_step_append by blast
    then show ?thesis by (rule ready_step_bound)
  next
    case False
    then have f: "length (filter is_PrepareAddress evs) = 1" using Cons.prems(2) by simp
    then have "list_ex is_PrepareAddress evs"
      by (metis filter_empty_conv list.size(3) list_ex_iff zero_neq_one)
    then have "length (entries (sys_port (fst r))) \<le> 1" using run_prepare_length [OF pa rn] by simp
    moreover have "length (entries (sys_port s)) \<le> length (entries (sys_port (fst r)))"
      using st' by (rule step_length)
    ultimately have "length (entries (sys_port s)) = 1"
      using Cons.prems(1) by (simp add: unprepared_def)
    then have q: "quiet (snd r)" and u: "unprepared (fst r)"
      using step_unprepared [OF Cons.prems(1) _ False st'] by simp_all
    have "count_list (snd r2) SignalAddressReady \<le> 1
          \<and> \<not> list_ex is_AddAddress (after_ready (snd r2))
          \<and> (SignalAddressReady \<notin> set (snd r2) \<longrightarrow> \<not> list_ex is_AddAddress (snd r2))"
      using Cons.IH [OF u f rn' pa] .
    then show ?thesis using e quiet_prefix [OF q] q by (auto simp: quiet_def list_ex_iff)
  qed
qed

lemma unprepared_new: "unprepared (system_new ufrag px)"
  by (simp add: unprepared_def system_new_def RelayPort_new_def RelayEntry_new_def)

text \<open>
  Claim C5, as amended. In every run of the port from its construction in which
  \<open>PrepareAddress\<close> is called exactly once, and is called while the port has exactly one
  entry (what \<open>PrepareAddress\<close> asserts: a build that checks assertions lets no other
  run complete), the address-ready signal is emitted at most once, no candidate is
  published after it and none is published in a run without it: the external addresses
  are published by the one call of \<open>SetReady\<close> that finds the port not ready, and
  \<open>SetReady\<close> on a ready port does nothing.
\<close>

theorem C5_address_ready_once:
  assumes "run W evs (system_new ufrag px) = Inr (s, es)"
    and "length (filter is_PrepareAddress evs) = 1"
    and "asserts_enabled W \<or> prepare_alone W evs (system_new ufrag px)"
  shows "count_list es SignalAddressReady \<le> 1
       \<and> \<not> list_ex is_AddAddress (after_ready es)
       \<and> (SignalAddressReady \<notin> set es \<longrightarrow> \<not> list_ex is_AddAddress es)
       \<and> (ready p \<longrightarrow> SetReady p = (p, []))"
proof -
  have "prepare_alone W evs (system_new ufrag px)"
    using assms(3) asserted_prepare_alone [OF _ assms(1)] by blast
  then show ?thesis
    using run_unprepared [OF unprepared_new assms(2) assms(1)] by (simp add: SetReady_def)
qed

lemma ready_prepare_alone: "prepare_alone relay_env ready_events (system_new [] PROXY_NONE)"
  by (simp add: ready_events_def is_PrepareAddress_def system_new_def RelayPort_new_def
      step_def Let_def AddServerAddress_def split: sum.split)

theorem C5_address_ready_once_witness:
  "run relay_env ready_events (system_new [] PROXY_NONE)
     = Inr (\<lparr>sys_port = ready_port, pending = []\<rparr>, ready_effects)
   \<and> length (filter is_PrepareAddress ready_events) = 1
   \<and> prepare_alone relay_env ready_events (system_new [] PROXY_NONE)
   \<and> count_list ready_effects SignalAddressReady = 1
   \<and> \<not> list_ex is_AddAddress (after_ready ready_effects)
   \<and> SetReady ready_port = (ready_port, [])"
proof -
  have f: "length (filter is_PrepareAddress ready_events) = 1"
    by (simp add: ready_events_def is_PrepareAddress_def)
  have r: "ready ready_port" by (simp add: ready_port_def)
  have c: "count_list ready_effects SignalAddressReady = 1" by (simp add: ready_effects_def)
  show ?thesis
    using C5_address_ready_once [OF ready_run f disjI2 [OF ready_prepare_alone], of ready_port]
      ready_run f r c ready_prepare_alone
    by simp
qed

text \<open>
  The claim fails when \<open>PrepareAddress\<close> is called, once, on a port that already has a
  second, connected entry, in a build with the assertions compiled out: \<open>ready_\<close> is
  reset, and the Allocate response of the primary entry publishes the candidate and
  signals readiness a second time.
\<close>

theorem C5_counterexample:
  "run relay_env twice_events (system_new [] PROXY_NONE)
     = Inr (\<lparr>sys_port = twice_port, pending = []\<rparr>, twice_effects)
   \<and> length (filter is_PrepareAddress twice_events) = 1
   \<and> count_list twice_effects SignalAddressReady = 2
   \<and> list_ex is_AddAddress (after_ready twice_effects)"
proof -
  have 1: "run relay_env twice_events (system_new [] PROXY_NONE)
     = Inr (\<lparr>sys_port = twice_port, pending = []\<rparr>, twice_effects)"
    by (simp add: twice_events_def twice_port_def twice_effects_def system_new_def
        RelayPort_new_def RelayEntry_new_def step_def Let_def AddServerAddress_def
        PrepareAddress_def RelayEntry_Connect_def ServerAddress_def udp_server_def conn1_def
        conn2_def posts_def is_post_def RelayPort_SendTo_def select_entry_def usable_entry_def
        IsNil_def SocketAddress_nil_def peer_def SOCKET_ERROR_def
        RelayEntry_OnReadPacket_def cookie_allocate_packet relay_read_def packets_differ
        AllocateRequest_OnResponse_def mapped_allocate_response RelayEntry_OnConnect_def
        AddExternalAddress_def SetReady_def RelayEntry_ScheduleKeepAlive_def mapped7_def
        kKeepAliveDelay_def ProtoToString_def AllocateRequest_new_def)
  have 2: "length (filter is_PrepareAddress twice_events) = 1"
    by (simp add: twice_events_def is_PrepareAddress_def)
  have 3: "count_list twice_effects SignalAddressReady = 2"
    by (simp add: twice_effects_def)
  have 4: "list_ex is_AddAddress (after_ready twice_effects)"
    by (simp add: twice_effects_def after_ready_def is_AddAddress_def)
  show ?thesis using 1 2 3 4 by simp
qed

section \<open>The lock of an entry\<close>

lemma OnReadPacket_locked:
  "locked (snd (fst (RelayEntry_OnReadPacket W chk ts sock data (p, e)))) =
     (locked e \<or>
      (\<exists>c msg v. current_connection e = Some c \<and> sock = Some (socket c)
         \<and> HasMagicCookie W data \<and> stun_read W data = Some msg \<and> chk = Unmatched
         \<and> msg_type msg = STUN_SEND_RESPONSE
         \<and> GetUInt32_attr (attrs msg) STUN_ATTR_OPTIONS = Some v \<and> (v AND 1) \<noteq> 0))"
  by (auto simp: RelayEntry_OnReadPacket_def OnResponse_entry
      split: option.split verdict.split)

text \<open>
  Claim C6, as amended. In every reachable state, an entry that is connected has a current
  connection. \<open>locked\<close> carries no such guarantee: \<open>OnReadPacket\<close> sets it on any
  Send response with bit 0 of OPTIONS that arrives on the socket of the current connection
  and matches no transaction, whether or not the entry is connected and whatever its
  \<open>ext_addr\<close>.
\<close>

theorem C6_connected_has_connection:
  assumes "reachable W s" and "e \<in> set (entries (sys_port s))"
  shows "(connected e \<longrightarrow> current_connection e \<noteq> None)
       \<and> locked (snd (fst (RelayEntry_OnReadPacket W chk ts sock data (p, e)))) =
           (locked e \<or>
            (\<exists>c msg v. current_connection e = Some c \<and> sock = Some (socket c)
               \<and> HasMagicCookie W data \<and> stun_read W data = Some msg \<and> chk = Unmatched
               \<and> msg_type msg = STUN_SEND_RESPONSE
               \<and> GetUInt32_attr (attrs msg) STUN_ATTR_OPTIONS = Some v \<and> (v AND 1) \<noteq> 0))"
proof -
  have "good e" using reachable_good [OF assms(1)] assms(2) by (simp add: list_all_iff)
  then show ?thesis using OnReadPacket_locked by (simp add: good_def)
qed

theorem C6_connected_has_connection_witness:
  "reachable relay_env \<lparr>sys_port = ready_port, pending = []\<rparr>
   \<and> entry_on True False SocketAddress_nil \<in> set (entries ready_port)
   \<and> connected (entry_on True False SocketAddress_nil)
   \<and> current_connection (entry_on True False SocketAddress_nil) = Some conn1
   \<and> \<not> locked (snd (fst (RelayEntry_OnReadPacket relay_env Unmatched 0 (Some 1) allocate_packet
            (ready_port, entry_on True False SocketAddress_nil))))
   \<and> locked (snd (fst (RelayEntry_OnReadPacket relay_env Unmatched 0 (Some 1) lock_packet
            (ready_port, entry_on True False SocketAddress_nil))))"
proof -
  have r: "reachable relay_env \<lparr>sys_port = ready_port, pending = []\<rparr>"
    using run_reachable [OF reachable_new ready_run] .
  have m: "entry_on True False SocketAddress_nil \<in> set (entries (sys_port \<lparr>sys_port = ready_port, pending = []\<rparr>))"
    by (simp add: ready_port_def entry_on_def)
  have l: "lock_packet \<noteq> allocate_packet" using packets_differ by simp
  show ?thesis
    using C6_connected_has_connection [OF r m, where chk = Unmatched and ts = 0
        and sock = "Some 1" and data = allocate_packet and p = ready_port]
      C6_connected_has_connection [OF r m, where chk = Unmatched and ts = 0
        and sock = "Some 1" and data = lock_packet and p = ready_port]
      r m cookie_allocate_packet cookie_lock_packet l
    by (simp add: entry_on_def conn1_def relay_read_def allocate_response_def lock_response_def)
qed

text \<open>
  The invariants of claim C6 fail in a reachable state: the server answers the first
  Allocate request of the primary entry with a Send response that has OPTIONS = 1, and the
  entry is locked while it is not connected and its \<open>ext_addr\<close> is nil.
\<close>

theorem C6_counterexample:
  "reachable relay_env lock_state
   \<and> locked (entries (sys_port lock_state) ! 0)
   \<and> \<not> connected (entries (sys_port lock_state) ! 0)
   \<and> IsNil (ext_addr (entries (sys_port lock_state) ! 0))"
proof -
  have "reachable relay_env lock_state"
    using run_reachable [OF reachable_new lock_run] .
  then show ?thesis by (simp add: lock_state_def IsNil_def SocketAddress_nil_def)
qed

end
